theory Spec2Isabelle
  imports Complex_Main "HOL-Library.AList" "HOL-Library.Multiset"
begin

section \<open>Python values\<close>

text \<open>
  Data of type \<open>Any\<close> (configuration dictionaries, parameter values, everything that
  comes out of \<open>json.loads\<close>) is a tree of Python values. A dictionary is an
  association list in insertion order; \<open>JFloat\<close> holds the real number a finite
  float denotes (comparisons of floats and ints are exact in Python, and the code does
  no arithmetic on them); the non-finite floats are not represented.
\<close>

datatype json =
    JNull
  | JBool bool
  | JInt int
  | JFloat real
  | JStr string
  | JList "json list"
  | JDict "(string \<times> json) list"

text \<open>Truth value of a Python value, as \<open>if x:\<close> and \<open>bool(x)\<close> compute it.\<close>

fun py_truthy :: "json \<Rightarrow> bool" where
  "py_truthy JNull = False"
| "py_truthy (JBool b) = b"
| "py_truthy (JInt n) = (n \<noteq> 0)"
| "py_truthy (JFloat x) = (x \<noteq> 0)"
| "py_truthy (JStr s) = (s \<noteq> [])"
| "py_truthy (JList xs) = (xs \<noteq> [])"
| "py_truthy (JDict kvs) = (kvs \<noteq> [])"

text \<open>
  \<open>isinstance(x, (int, float))\<close>: \<open>bool\<close> is a subclass of \<open>int\<close>, with
  \<open>True == 1\<close> and \<open>False == 0\<close>. The result is the number the value compares as.
\<close>

fun py_num :: "json \<Rightarrow> real option" where
  "py_num (JBool b) = Some (if b then 1 else 0)"
| "py_num (JInt n) = Some (of_int n)"
| "py_num (JFloat x) = Some x"
| "py_num _ = None"

text \<open>\<open>x in [True, False, 0, 1]\<close>: membership by \<open>==\<close>, so \<open>0.0\<close> and \<open>1.0\<close> are in.\<close>

definition in_bool_list :: "json \<Rightarrow> bool" where
  "in_bool_list v = (case py_num v of None \<Rightarrow> False | Some x \<Rightarrow> x = 0 \<or> x = 1)"

section \<open>Errors\<close>

text \<open>
  Every \<open>raise\<close> site of the modelled code is one constructor; the source raises
  \<open>ValueError\<close> with a different message at each of them. \<open>KeyError\<close>,
  \<open>TypeError\<close> and \<open>AttributeError\<close> are the interpreter's own.
\<close>

datatype error =
    InvalidEffectType            \<comment> \<open>Invalid effect type: ...\<close>
  | UnknownParameter string      \<comment> \<open>Unknown parameter '...' for effect type ...\<close>
  | NotBoolean string            \<comment> \<open>... must be a boolean value\<close>
  | NotNumeric string            \<comment> \<open>... must be a numeric value\<close>
  | OutOfRange string            \<comment> \<open>... must be between min and max\<close>
  | NegativePosition             \<comment> \<open>Position must be non-negative\<close>
  | ChainNameLength              \<comment> \<open>Chain name must be 1-50 characters\<close>
  | MaxEffects                   \<comment> \<open>Maximum 8 effects per chain\<close>
  | DuplicateEffect              \<comment> \<open>Cannot have duplicate effect instances\<close>
  | IdListLength                 \<comment> \<open>Effect ID list must contain all current effects\<close>
  | EffectIdNotFound nat         \<comment> \<open>Effect ID ... not found in chain\<close>
  | PresetNameLength             \<comment> \<open>Preset name must be 1-100 characters\<close>
  | DescriptionLength            \<comment> \<open>Description maximum 500 characters\<close>
  | BadTag                       \<comment> \<open>Tags must be alphanumeric with hyphens/underscores only\<close>
  | BadUUID                      \<comment> \<open>ValueError of \<open>UUID(...)\<close>\<close>
  | BadIsoformat                 \<comment> \<open>ValueError of \<open>datetime.fromisoformat\<close>\<close>
  | KeyError string
  | TypeError
  | AttributeError
  | IOError                      \<comment> \<open>Failed to save preset file: ...\<close>
  | ChainNotFound                \<comment> \<open>Effects chain not found\<close>
  | PresetNotFound               \<comment> \<open>Preset not found\<close>
  | PresetNameExists             \<comment> \<open>Preset name already exists\<close>
  | MissingName                  \<comment> \<open>Invalid preset data: missing name\<close>
  | MissingConfig                \<comment> \<open>Invalid preset data: missing effects_chain_config\<close>
  | InvalidPresetData error      \<comment> \<open>Invalid preset data: ... (wraps the cause)\<close>
  | FailedToSave error           \<comment> \<open>Failed to save preset: ... (wraps the cause)\<close>
  | FailedToDelete error         \<comment> \<open>Failed to delete preset: ... (wraps the cause)\<close>
  | IndexError
  | IllTyped                     \<comment> \<open>a value whose type is not the annotated one: outside the model\<close>

section \<open>audio\_effect.py\<close>

datatype EffectType = BOOST | DISTORTION | DELAY | REVERB

fun EffectType_value :: "EffectType \<Rightarrow> string" where
  "EffectType_value BOOST = ''BOOST''"
| "EffectType_value DISTORTION = ''DISTORTION''"
| "EffectType_value DELAY = ''DELAY''"
| "EffectType_value REVERB = ''REVERB''"

text \<open>\<open>EffectType(x)\<close>: the member whose value is \<open>x\<close>, else \<open>ValueError\<close>.\<close>

definition EffectType_call :: "json \<Rightarrow> error + EffectType" where
  "EffectType_call x =
     (if x = JStr ''BOOST'' then Inr BOOST
      else if x = JStr ''DISTORTION'' then Inr DISTORTION
      else if x = JStr ''DELAY'' then Inr DELAY
      else if x = JStr ''REVERB'' then Inr REVERB
      else Inl InvalidEffectType)"

record param_def =
  pd_min :: real
  pd_max :: real
  pd_default :: json
  pd_units :: string
  pd_curve :: string

definition pdef :: "real \<Rightarrow> real \<Rightarrow> json \<Rightarrow> string \<Rightarrow> param_def" where
  "pdef lo hi d u = \<lparr>pd_min = lo, pd_max = hi, pd_default = d, pd_units = u, pd_curve = ''linear''\<rparr>"

fun PARAMETER_DEFINITIONS :: "EffectType \<Rightarrow> (string \<times> param_def) list" where
  "PARAMETER_DEFINITIONS BOOST =
     [(''gain_db'', pdef (-20) 30 (JFloat 0) ''dB''),
      (''tone'', pdef 0 1 (JFloat 0.5) '''')]"
| "PARAMETER_DEFINITIONS DISTORTION =
     [(''drive_db'', pdef 0 30 (JFloat 10) ''dB''),
      (''tone'', pdef 0 1 (JFloat 0.5) ''''),
      (''level'', pdef 0 1 (JFloat 0.7) '''')]"
| "PARAMETER_DEFINITIONS DELAY =
     [(''delay_seconds'', pdef 0 2 (JFloat 0.25) ''s''),
      (''feedback'', pdef 0 0.95 (JFloat 0.3) ''''),
      (''mix'', pdef 0 1 (JFloat 0.3) ''''),
      (''tempo_sync'', pdef 0 1 (JBool False) ''bool'')]"
| "PARAMETER_DEFINITIONS REVERB =
     [(''room_size'', pdef 0 1 (JFloat 0.5) ''''),
      (''damping'', pdef 0 1 (JFloat 0.5) ''''),
      (''wet_level'', pdef 0 1 (JFloat 0.3) ''''),
      (''dry_level'', pdef 0 1 (JFloat 0.7) '''')]"

text \<open>
  The state of one \<open>AudioEffect\<close> object. The identifier is the value \<open>uuid4()\<close>
  returned; \<open>bypassed\<close>, \<open>position\<close> and \<open>preset_name\<close> hold whatever value
  was assigned (\<open>from_dict\<close> and the setters store untyped data).
\<close>

type_synonym uuid = nat

record AudioEffect =
  effect_id :: uuid
  effect_type :: EffectType
  bypassed :: json
  position :: json
  preset_name :: json
  parameters :: "(string \<times> json) list"

text \<open>
  The body of the loop of \<open>update_parameters\<close> for one key: the checks, and the value
  that is stored when they pass.
\<close>

definition check_param :: "param_def \<Rightarrow> string \<Rightarrow> json \<Rightarrow> error + json" where
  "check_param pd param_name param_value =
     (if pd_units pd = ''bool'' then
        (if \<not> in_bool_list param_value then Inl (NotBoolean param_name)
         else Inr (JBool (py_truthy param_value)))
      else
        (case py_num param_value of
           None \<Rightarrow> Inl (NotNumeric param_name)
         | Some x \<Rightarrow>
             if x < pd_min pd \<or> x > pd_max pd then Inl (OutOfRange param_name)
             else Inr param_value))"

text \<open>
  \<open>update_parameters\<close> mutates the object key by key and may raise in the middle, so
  the model returns the error (if any) together with the state the object is left in.
\<close>

fun update_parameters :: "AudioEffect \<Rightarrow> (string \<times> json) list \<Rightarrow> error option \<times> AudioEffect" where
  "update_parameters self [] = (None, self)"
| "update_parameters self ((param_name, param_value) # rest) =
     (case map_of (PARAMETER_DEFINITIONS (effect_type self)) param_name of
        None \<Rightarrow> (Some (UnknownParameter param_name), self)
      | Some pd \<Rightarrow>
          (case check_param pd param_name param_value of
             Inl err \<Rightarrow> (Some err, self)
           | Inr v \<Rightarrow>
               update_parameters
                 (self\<lparr>parameters := AList.update param_name v (parameters self)\<rparr>) rest))"

text \<open>
  The first argument of the constructor is an \<open>EffectType\<close> member or any other value
  (the source converts strings and rejects the rest).
\<close>

datatype kind_arg = Member EffectType | Other json

definition resolve_kind :: "kind_arg \<Rightarrow> error + EffectType" where
  "resolve_kind k =
     (case k of
        Member t \<Rightarrow> Inr t
      | Other (JStr s) \<Rightarrow> EffectType_call (JStr s)
      | Other _ \<Rightarrow> Inl InvalidEffectType)"

definition default_parameters :: "EffectType \<Rightarrow> (string \<times> json) list" where
  "default_parameters t = map (\<lambda>(param_name, pd). (param_name, pd_default pd)) (PARAMETER_DEFINITIONS t)"

text \<open>
  \<open>AudioEffect(effect_type, parameters)\<close>; \<open>new_id\<close> is the value of \<open>uuid4()\<close>.
  \<open>parameters\<close> is applied only when it is truthy, and must then have \<open>.items()\<close>.
\<close>

definition AudioEffect_init :: "uuid \<Rightarrow> kind_arg \<Rightarrow> json \<Rightarrow> error + AudioEffect" where
  "AudioEffect_init new_id kind params =
     (case resolve_kind kind of
        Inl err \<Rightarrow> Inl err
      | Inr t \<Rightarrow>
          (let self = \<lparr>effect_id = new_id, effect_type = t, bypassed = JBool False,
                        position = JInt 0, preset_name = JNull,
                        parameters = default_parameters t\<rparr>
           in if py_truthy params then
                (case params of
                   JDict kvs \<Rightarrow>
                     (case update_parameters self kvs of
                        (Some err, _) \<Rightarrow> Inl err
                      | (None, self') \<Rightarrow> Inr self')
                 | _ \<Rightarrow> Inl AttributeError)
              else Inr self))"

definition set_bypassed :: "AudioEffect \<Rightarrow> json \<Rightarrow> AudioEffect" where
  "set_bypassed self b = self\<lparr>bypassed := b\<rparr>"

definition set_preset_name :: "AudioEffect \<Rightarrow> json \<Rightarrow> AudioEffect" where
  "set_preset_name self n = self\<lparr>preset_name := n\<rparr>"

text \<open>\<open>set_position\<close> is only ever called with an \<open>int\<close> by the code modelled here.\<close>

definition set_position :: "AudioEffect \<Rightarrow> int \<Rightarrow> error + AudioEffect" where
  "set_position self p = (if p < 0 then Inl NegativePosition else Inr (self\<lparr>position := JInt p\<rparr>))"
subsection \<open>What the specification says about creation\<close>

definition value_respects :: "param_def \<Rightarrow> json \<Rightarrow> bool" where
  "value_respects pd v =
     (if pd_units pd = ''bool'' then v \<in> {JBool True, JBool False, JInt 0, JInt 1}
      else (case v of
              JInt n \<Rightarrow> pd_min pd \<le> of_int n \<and> of_int n \<le> pd_max pd
            | JFloat x \<Rightarrow> pd_min pd \<le> x \<and> x \<le> pd_max pd
            | _ \<Rightarrow> False))"

definition respects_schema :: "EffectType \<Rightarrow> (string \<times> json) list \<Rightarrow> bool" where
  "respects_schema t ov =
     (distinct (map fst ov) \<and>
      list_all (\<lambda>(n, v). case map_of (PARAMETER_DEFINITIONS t) n of
                            None \<Rightarrow> False | Some pd \<Rightarrow> value_respects pd v) ov)"

definition coerced :: "param_def \<Rightarrow> json \<Rightarrow> json" where
  "coerced pd v = (if pd_units pd = ''bool'' then JBool (py_truthy v) else v)"

definition expected_parameters :: "EffectType \<Rightarrow> (string \<times> json) list \<Rightarrow> (string \<times> json) list" where
  "expected_parameters t ov =
     map (\<lambda>(n, pd). (n, case map_of ov n of None \<Rightarrow> pd_default pd | Some v \<Rightarrow> coerced pd v))
         (PARAMETER_DEFINITIONS t)"

definition in_range :: "param_def \<Rightarrow> json \<Rightarrow> bool" where
  "in_range pd v = (case py_num v of None \<Rightarrow> False | Some x \<Rightarrow> pd_min pd \<le> x \<and> x \<le> pd_max pd)"

definition kind_denotes :: "kind_arg \<Rightarrow> EffectType \<Rightarrow> bool" where
  "kind_denotes k t = (k = Member t \<or> k = Other (JStr (EffectType_value t)))"

subsection \<open>One entry of an update: its error, or the value stored\<close>

definition key_error :: "EffectType \<Rightarrow> string \<Rightarrow> json \<Rightarrow> error option" where
  "key_error t k v =
     (case map_of (PARAMETER_DEFINITIONS t) k of
        None \<Rightarrow> Some (UnknownParameter k)
      | Some pd \<Rightarrow> (case check_param pd k v of Inl err \<Rightarrow> Some err | Inr _ \<Rightarrow> None))"

definition stored_value :: "EffectType \<Rightarrow> string \<Rightarrow> json \<Rightarrow> json option" where
  "stored_value t k v =
     (case map_of (PARAMETER_DEFINITIONS t) k of
        None \<Rightarrow> None
      | Some pd \<Rightarrow> (case check_param pd k v of Inl _ \<Rightarrow> None | Inr w \<Rightarrow> Some w))"


text \<open>
  What the specification calls a valid entry of an update: the key is a parameter of
  the effect's kind, and the value is one of \<open>True\<close>, \<open>False\<close>, \<open>0\<close>, \<open>1\<close> for a
  boolean parameter, a number within the bounds of the schema for any other.
\<close>
definition key_valid :: "EffectType \<Rightarrow> string \<Rightarrow> json \<Rightarrow> bool" where
  "key_valid t k v =
     (case map_of (PARAMETER_DEFINITIONS t) k of
        None \<Rightarrow> False
      | Some pd \<Rightarrow>
          if pd_units pd = ''bool'' then in_bool_list v
          else (case py_num v of None \<Rightarrow> False | Some x \<Rightarrow> pd_min pd \<le> x \<and> x \<le> pd_max pd))"

definition entries_valid :: "EffectType \<Rightarrow> (string \<times> json) list \<Rightarrow> bool" where
  "entries_valid t upd = list_all (\<lambda>(k, v). key_valid t k v) upd"




section \<open>effects\_chain.py\<close>

text \<open>
  A chain holds references to \<open>AudioEffect\<close> objects and mutates them in place
  (\<open>set_position\<close>), and one object may be listed twice, so the objects live in a store:
  a reference is an address, \<open>objs h r\<close> is the state of the object at \<open>r\<close>, and
  \<open>next_ref h\<close> is the first address not yet allocated.

  \<open>datetime.now()\<close> is an input: every clock read during one call is the value
  \<open>now\<close>. A result \<open>Inl e\<close> means the call raised \<open>e\<close> before it changed
  anything that can still be reached afterwards; the functions that can raise after
  such a mutation return the state as well.
\<close>

type_synonym ref = nat
type_synonym datetime = nat

record heap =
  objs :: "ref \<Rightarrow> AudioEffect"
  next_ref :: ref

definition new_obj :: "heap \<Rightarrow> AudioEffect \<Rightarrow> ref \<times> heap" where
  "new_obj h e = (next_ref h, h\<lparr>objs := (objs h)(next_ref h := e), next_ref := Suc (next_ref h)\<rparr>)"

record EffectsChain =
  chain_id :: uuid
  chain_name :: string
  effects :: "ref list"
  active :: json
  created_at :: datetime
  modified_at :: datetime

definition MAX_EFFECTS :: nat where
  "MAX_EFFECTS = 8"

definition EffectsChain_init :: "uuid \<Rightarrow> datetime \<Rightarrow> string \<Rightarrow> error + EffectsChain" where
  "EffectsChain_init new_id now name =
     (if name = [] \<or> length name < 1 \<or> length name > 50 then Inl ChainNameLength
      else Inr \<lparr>chain_id = new_id, chain_name = name, effects = [], active = JBool False,
                created_at = now, modified_at = now\<rparr>)"

text \<open>\<open>AudioEffect.__eq__\<close>: two effects are equal when their ids are.\<close>

definition effect_eq :: "heap \<Rightarrow> ref \<Rightarrow> ref \<Rightarrow> bool" where
  "effect_eq h r r' = (effect_id (objs h r) = effect_id (objs h r'))"

text \<open>
  \<open>effect.set_position(i)\<close> on the object at \<open>r\<close>. The chain only passes
  \<open>len(self.effects)\<close> or an index of \<open>enumerate\<close>, for which the guard of
  \<open>set_position\<close> never fires.
\<close>

definition store_position :: "heap \<Rightarrow> ref \<Rightarrow> nat \<Rightarrow> heap" where
  "store_position h r i = h\<lparr>objs := (objs h)(r := (objs h r)\<lparr>position := JInt (int i)\<rparr>)\<rparr>"

definition add_effect :: "heap \<Rightarrow> datetime \<Rightarrow> EffectsChain \<Rightarrow> ref \<Rightarrow> error + heap \<times> EffectsChain" where
  "add_effect h now self effect =
     (if length (effects self) \<ge> MAX_EFFECTS then Inl MaxEffects
      else if list_ex (\<lambda>r. r = effect \<or> effect_eq h r effect) (effects self) then Inl DuplicateEffect
      else Inr (store_position h effect (length (effects self)),
                self\<lparr>effects := effects self @ [effect], modified_at := now\<rparr>))"

text \<open>\<open>_update_positions\<close>: the loop over \<open>enumerate(self.effects)\<close>, from index \<open>i\<close> on.\<close>

fun update_positions_from :: "nat \<Rightarrow> heap \<Rightarrow> ref list \<Rightarrow> heap" where
  "update_positions_from i h [] = h"
| "update_positions_from i h (r # rs) = update_positions_from (Suc i) (store_position h r i) rs"

definition update_positions :: "heap \<Rightarrow> ref list \<Rightarrow> heap" where
  "update_positions h rs = update_positions_from 0 h rs"

text \<open>The index of the first effect with the given id (the loop of \<open>remove_effect\<close>).\<close>

fun first_index :: "heap \<Rightarrow> uuid \<Rightarrow> ref list \<Rightarrow> nat option" where
  "first_index h eid [] = None"
| "first_index h eid (r # rs) =
     (if effect_id (objs h r) = eid then Some 0 else map_option Suc (first_index h eid rs))"

definition remove_effect :: "heap \<Rightarrow> datetime \<Rightarrow> EffectsChain \<Rightarrow> uuid \<Rightarrow> bool \<times> heap \<times> EffectsChain" where
  "remove_effect h now self eid =
     (case first_index h eid (effects self) of
        None \<Rightarrow> (False, h, self)
      | Some i \<Rightarrow>
          (let rest = take i (effects self) @ drop (Suc i) (effects self)
           in (True, update_positions h rest, self\<lparr>effects := rest, modified_at := now\<rparr>)))"

text \<open>
  The two nested loops of \<open>reorder_effects\<close>: for each id in turn the first effect of
  the chain with that id, or the error for the first id that has none.
\<close>

fun collect_effects :: "heap \<Rightarrow> ref list \<Rightarrow> uuid list \<Rightarrow> error + ref list" where
  "collect_effects h current [] = Inr []"
| "collect_effects h current (eid # eids) =
     (case find (\<lambda>r. effect_id (objs h r) = eid) current of
        None \<Rightarrow> Inl (EffectIdNotFound eid)
      | Some r \<Rightarrow>
          (case collect_effects h current eids of
             Inl err \<Rightarrow> Inl err
           | Inr new_effects \<Rightarrow> Inr (r # new_effects)))"

definition reorder_effects :: "heap \<Rightarrow> datetime \<Rightarrow> EffectsChain \<Rightarrow> uuid list \<Rightarrow> error + heap \<times> EffectsChain" where
  "reorder_effects h now self effect_ids =
     (if length effect_ids \<noteq> length (effects self) then Inl IdListLength
      else
        (case collect_effects h (effects self) effect_ids of
           Inl err \<Rightarrow> Inl err
         | Inr new_effects \<Rightarrow>
             Inr (update_positions h new_effects,
                  self\<lparr>effects := new_effects, modified_at := now\<rparr>)))"

subsection \<open>The chain invariant of the specification\<close>

text \<open>The ids and the positions of the effects of a chain, in order.\<close>

definition chain_ids :: "heap \<Rightarrow> EffectsChain \<Rightarrow> uuid list" where
  "chain_ids h c = map (\<lambda>r. effect_id (objs h r)) (effects c)"

definition chain_positions :: "heap \<Rightarrow> EffectsChain \<Rightarrow> json list" where
  "chain_positions h c = map (\<lambda>r. position (objs h r)) (effects c)"

text \<open>\<open>effects[i].position == i\<close> for every index, and no two effects share an id.\<close>

definition chain_invariant :: "heap \<Rightarrow> EffectsChain \<Rightarrow> bool" where
  "chain_invariant h c =
     (chain_positions h c = map (\<lambda>i. JInt (int i)) [0..<length (effects c)]
      \<and> distinct (chain_ids h c))"

subsection \<open>Sequences of chain operations\<close>

text \<open>
  The operations the invariant is claimed for, and a run of them on one chain: an
  operation that raises leaves the store and the chain as they were.
\<close>

datatype chain_op = AddEffect ref | RemoveEffect uuid | ReorderEffects "uuid list"

fun apply_op :: "datetime \<Rightarrow> heap \<times> EffectsChain \<Rightarrow> chain_op \<Rightarrow> heap \<times> EffectsChain" where
  "apply_op now (h, c) (AddEffect r) =
     (case add_effect h now c r of Inl _ \<Rightarrow> (h, c) | Inr s \<Rightarrow> s)"
| "apply_op now (h, c) (RemoveEffect eid) = snd (remove_effect h now c eid)"
| "apply_op now (h, c) (ReorderEffects eids) =
     (case reorder_effects h now c eids of Inl _ \<Rightarrow> (h, c) | Inr s \<Rightarrow> s)"

definition run_ops :: "datetime \<Rightarrow> heap \<times> EffectsChain \<Rightarrow> chain_op list \<Rightarrow> heap \<times> EffectsChain" where
  "run_ops now s ops = foldl (apply_op now) s ops"

text \<open>A reorder request that lists no id twice.\<close>

definition reorder_arg_ok :: "chain_op \<Rightarrow> bool" where
  "reorder_arg_ok op = (case op of ReorderEffects eids \<Rightarrow> distinct eids | _ \<Rightarrow> True)"

subsection \<open>A chain of two effects\<close>

text \<open>
  A Boost effect with id 10 at address 0 and a Distortion effect with id 20 at address 1,
  both as the constructor leaves them, and the empty chain \<open>EffectsChain("Lead")\<close>;
  \<open>lead_heap2\<close> and \<open>lead_chain2\<close> are the store and the chain after both effects
  were added.
\<close>

definition boost_a :: AudioEffect where
  "boost_a = \<lparr>effect_id = 10, effect_type = BOOST, bypassed = JBool False, position = JInt 0,
              preset_name = JNull, parameters = [(''gain_db'', JFloat 0), (''tone'', JFloat 0.5)]\<rparr>"

definition dist_b :: AudioEffect where
  "dist_b = \<lparr>effect_id = 20, effect_type = DISTORTION, bypassed = JBool False, position = JInt 0,
             preset_name = JNull,
             parameters = [(''drive_db'', JFloat 10), (''tone'', JFloat 0.5), (''level'', JFloat 0.7)]\<rparr>"

definition two_effects :: heap where
  "two_effects = \<lparr>objs = (\<lambda>_. boost_a)(1 := dist_b), next_ref = 2\<rparr>"

definition lead_chain :: EffectsChain where
  "lead_chain = \<lparr>chain_id = 1, chain_name = ''Lead'', effects = [], active = JBool False,
                 created_at = 0, modified_at = 0\<rparr>"

definition lead_heap2 :: heap where
  "lead_heap2 = \<lparr>objs = (\<lambda>_. boost_a)(1 := dist_b\<lparr>position := JInt 1\<rparr>), next_ref = 2\<rparr>"

definition lead_chain2 :: EffectsChain where
  "lead_chain2 = lead_chain\<lparr>effects := [0, 1]\<rparr>"

section \<open>Dictionaries of untyped data, and the standard library\<close>

text \<open>\<open>d.get(k, default)\<close>, \<open>d[k]\<close> and \<open>for x in v\<close> on untyped data.\<close>

definition dict_get :: "(string \<times> json) list \<Rightarrow> string \<Rightarrow> json \<Rightarrow> json" where
  "dict_get d k dflt = (case map_of d k of None \<Rightarrow> dflt | Some v \<Rightarrow> v)"

definition dict_item :: "(string \<times> json) list \<Rightarrow> string \<Rightarrow> error + json" where
  "dict_item d k = (case map_of d k of None \<Rightarrow> Inl (KeyError k) | Some v \<Rightarrow> Inr v)"

fun py_iter :: "json \<Rightarrow> error + json list" where
  "py_iter (JList xs) = Inr xs"
| "py_iter (JDict kvs) = Inr (map (\<lambda>(k, v). JStr k) kvs)"
| "py_iter (JStr s) = Inr (map (\<lambda>c. JStr [c]) s)"
| "py_iter _ = Inl TypeError"

text \<open>
  Where the source hands a value of type \<open>Any\<close> to a parameter annotated \<open>str\<close>,
  \<open>Optional[str]\<close>, \<open>List[str]\<close> or \<open>Dict\<close>, the model goes on with a value of the
  annotated type and stops with \<open>IllTyped\<close> on any other: what Python does with an
  ill-typed object is outside the model.
\<close>

fun as_str :: "json \<Rightarrow> error + string" where
  "as_str (JStr s) = Inr s"
| "as_str _ = Inl IllTyped"

fun as_opt_str :: "json \<Rightarrow> error + string option" where
  "as_opt_str JNull = Inr None"
| "as_opt_str (JStr s) = Inr (Some s)"
| "as_opt_str _ = Inl IllTyped"

fun as_str_list :: "json list \<Rightarrow> error + string list" where
  "as_str_list [] = Inr []"
| "as_str_list (x # xs) =
     (case as_str x of
        Inl err \<Rightarrow> Inl err
      | Inr s \<Rightarrow> (case as_str_list xs of Inl err \<Rightarrow> Inl err | Inr ss \<Rightarrow> Inr (s # ss)))"

fun as_opt_str_list :: "json \<Rightarrow> error + string list option" where
  "as_opt_str_list JNull = Inr None"
| "as_opt_str_list (JList xs) = (case as_str_list xs of Inl err \<Rightarrow> Inl err | Inr ss \<Rightarrow> Inr (Some ss))"
| "as_opt_str_list _ = Inl IllTyped"

fun as_dict :: "json \<Rightarrow> error + (string \<times> json) list" where
  "as_dict (JDict d) = Inr d"
| "as_dict _ = Inl IllTyped"

fun opt_str_json :: "string option \<Rightarrow> json" where
  "opt_str_json None = JNull"
| "opt_str_json (Some s) = JStr s"

text \<open>
  The codecs of the standard library are parameters of the model: \<open>str(u)\<close> and
  \<open>UUID(s)\<close> for identifiers, \<open>isoformat\<close> and \<open>fromisoformat\<close> for timestamps
  (\<open>None\<close> is their \<open>ValueError\<close>). All that is assumed of them, where it is needed,
  is \<open>stdlib_contract\<close>: parsing the text of a value gives the value back.
  \<open>json.dumps\<close> and \<open>json.loads\<close> are not modelled: a JSON text is identified with
  the tree it denotes, which \<open>loads\<close> returns for the text \<open>dumps\<close> wrote.
\<close>

record stdlib =
  uuid_str :: "uuid \<Rightarrow> string"
  uuid_parse :: "string \<Rightarrow> uuid option"
  isoformat :: "datetime \<Rightarrow> string"
  fromisoformat :: "string \<Rightarrow> datetime option"

definition stdlib_contract :: "stdlib \<Rightarrow> bool" where
  "stdlib_contract lib =
     ((\<forall>u. uuid_parse lib (uuid_str lib u) = Some u)
      \<and> (\<forall>t. fromisoformat lib (isoformat lib t) = Some t))"

fun UUID_call :: "stdlib \<Rightarrow> json \<Rightarrow> error + uuid" where
  "UUID_call lib (JStr s) = (case uuid_parse lib s of None \<Rightarrow> Inl BadUUID | Some u \<Rightarrow> Inr u)"
| "UUID_call lib JNull = Inl TypeError"
| "UUID_call lib _ = Inl AttributeError"

fun fromisoformat_call :: "stdlib \<Rightarrow> json \<Rightarrow> error + datetime" where
  "fromisoformat_call lib (JStr s) =
     (case fromisoformat lib s of None \<Rightarrow> Inl BadIsoformat | Some t \<Rightarrow> Inr t)"
| "fromisoformat_call lib _ = Inl TypeError"

text \<open>
  A codec that satisfies the contract, for the concrete examples: an identifier or a
  timestamp \<open>n\<close> is written as \<open>n\<close> strokes.
\<close>

definition strokes :: "string \<Rightarrow> nat option" where
  "strokes s = (if list_all (\<lambda>c. c = CHR ''|'') s then Some (length s) else None)"

definition stroke_lib :: stdlib where
  "stroke_lib = \<lparr>uuid_str = (\<lambda>u. replicate u CHR ''|''), uuid_parse = strokes,
                 isoformat = (\<lambda>t. replicate t CHR ''|''), fromisoformat = strokes\<rparr>"

section \<open>Serialisation of effects and chains\<close>

text \<open>\<open>AudioEffect.from_dict(data)\<close>; \<open>new_id\<close> is what \<open>uuid4()\<close> returns in the constructor.\<close>

definition AudioEffect_from_dict :: "stdlib \<Rightarrow> uuid \<Rightarrow> json \<Rightarrow> error + AudioEffect" where
  "AudioEffect_from_dict lib new_id data =
     (case data of
        JDict d \<Rightarrow>
          (case dict_item d ''type'' of
             Inl err \<Rightarrow> Inl err
           | Inr tv \<Rightarrow>
          (case EffectType_call tv of
             Inl err \<Rightarrow> Inl err
           | Inr t \<Rightarrow>
          (case AudioEffect_init new_id (Member t) (dict_get d ''parameters'' (JDict [])) of
             Inl err \<Rightarrow> Inl err
           | Inr effect \<Rightarrow>
          (case (case map_of d ''id'' of
                   None \<Rightarrow> Inr effect
                 | Some v \<Rightarrow> (case UUID_call lib v of
                                Inl err \<Rightarrow> Inl err
                              | Inr u \<Rightarrow> Inr (effect\<lparr>effect_id := u\<rparr>))) of
             Inl err \<Rightarrow> Inl err
           | Inr effect \<Rightarrow>
               Inr (effect\<lparr>bypassed := dict_get d ''bypassed'' (JBool False),
                           position := dict_get d ''position'' (JInt 0),
                           preset_name := dict_get d ''preset_name'' JNull\<rparr>)))))
      | _ \<Rightarrow> Inl TypeError)"

text \<open>
  The loop at the end of \<open>EffectsChain.from_dict\<close>: each descriptor becomes a new
  object that is appended to \<open>chain.effects\<close> directly. \<open>uuid4 k\<close> is the value of the
  \<open>k\<close>-th call of \<open>uuid4()\<close> during the whole call.
\<close>

fun append_effects :: "stdlib \<Rightarrow> (nat \<Rightarrow> uuid) \<Rightarrow> nat \<Rightarrow> heap \<Rightarrow> EffectsChain \<Rightarrow> json list
                       \<Rightarrow> error + heap \<times> EffectsChain" where
  "append_effects lib uuid4 k h chain [] = Inr (h, chain)"
| "append_effects lib uuid4 k h chain (effect_data # rest) =
     (case AudioEffect_from_dict lib (uuid4 k) effect_data of
        Inl err \<Rightarrow> Inl err
      | Inr effect \<Rightarrow>
          (case new_obj h effect of
             (r, h') \<Rightarrow>
               append_effects lib uuid4 (Suc k) h' (chain\<lparr>effects := effects chain @ [r]\<rparr>) rest))"

definition EffectsChain_from_dict :: "stdlib \<Rightarrow> (nat \<Rightarrow> uuid) \<Rightarrow> datetime \<Rightarrow> heap \<Rightarrow> json
                                       \<Rightarrow> error + heap \<times> EffectsChain" where
  "EffectsChain_from_dict lib uuid4 now h data =
     (case data of
        JDict d \<Rightarrow>
          (case dict_item d ''name'' of
             Inl err \<Rightarrow> Inl err
           | Inr nv \<Rightarrow>
          (case as_str nv of
             Inl err \<Rightarrow> Inl err
           | Inr nm \<Rightarrow>
          (case EffectsChain_init (uuid4 0) now nm of
             Inl err \<Rightarrow> Inl err
           | Inr chain \<Rightarrow>
          (case (case map_of d ''id'' of
                   None \<Rightarrow> Inr chain
                 | Some v \<Rightarrow> (case UUID_call lib v of
                                Inl err \<Rightarrow> Inl err
                              | Inr u \<Rightarrow> Inr (chain\<lparr>chain_id := u\<rparr>))) of
             Inl err \<Rightarrow> Inl err
           | Inr chain \<Rightarrow>
          (case (case map_of d ''created_at'' of
                   None \<Rightarrow> Inr (chain\<lparr>active := dict_get d ''active'' (JBool False)\<rparr>)
                 | Some v \<Rightarrow> (case fromisoformat_call lib v of
                                Inl err \<Rightarrow> Inl err
                              | Inr t \<Rightarrow> Inr (chain\<lparr>active := dict_get d ''active'' (JBool False),
                                                     created_at := t\<rparr>))) of
             Inl err \<Rightarrow> Inl err
           | Inr chain \<Rightarrow>
          (case (case map_of d ''modified_at'' of
                   None \<Rightarrow> Inr chain
                 | Some v \<Rightarrow> (case fromisoformat_call lib v of
                                Inl err \<Rightarrow> Inl err
                              | Inr t \<Rightarrow> Inr (chain\<lparr>modified_at := t\<rparr>))) of
             Inl err \<Rightarrow> Inl err
           | Inr chain \<Rightarrow>
          (case py_iter (dict_get d ''effects'' (JList [])) of
             Inl err \<Rightarrow> Inl err
           | Inr effs \<Rightarrow> append_effects lib uuid4 1 h chain effs)))))))
      | _ \<Rightarrow> Inl TypeError)"

subsection \<open>A chain dictionary that no sequence of \<open>add_effect\<close> calls could produce\<close>

text \<open>
  Nine descriptors, each with the same \<open>id\<close> text and the position 5.
\<close>

definition shared_descriptor :: "string \<Rightarrow> json" where
  "shared_descriptor s = JDict [(''type'', JStr ''BOOST''), (''id'', JStr s), (''position'', JInt 5)]"

definition crowded_dict :: "string \<Rightarrow> json" where
  "crowded_dict s =
     JDict [(''name'', JStr ''Full''),
            (''effects'', JList [shared_descriptor s, shared_descriptor s, shared_descriptor s,
                                 shared_descriptor s, shared_descriptor s, shared_descriptor s,
                                 shared_descriptor s, shared_descriptor s, shared_descriptor s])]"

section \<open>preset.py\<close>

text \<open>
  A preset. \<open>effects_chain_config\<close> is a dictionary of untyped data; its type is a
  parameter of the record because \<open>Preset.copy\<close> is modelled further down on
  dictionaries that live in a store of mutable objects.
\<close>

type_synonym config = "(string \<times> json) list"

record 'c Preset =
  preset_id :: uuid
  name :: string
  description :: "string option"
  effects_chain_config :: 'c
  preset_created_at :: datetime
  preset_modified_at :: datetime
  tags :: "string list"
  author :: "string option"
  version :: string

text \<open>
  \<open>re.match(r'^[a-zA-Z0-9_-]+$', tag)\<close>: one or more characters of the class, up to
  the end of the string or up to a single newline that ends it (\<open>$\<close> matches before a
  trailing newline).
\<close>

definition tag_char :: "char \<Rightarrow> bool" where
  "tag_char c = (c \<in> set (''abcdefghijklmnopqrstuvwxyz'' @ ''ABCDEFGHIJKLMNOPQRSTUVWXYZ''
                            @ ''0123456789'' @ ''_-''))"

definition tag_ok :: "string \<Rightarrow> bool" where
  "tag_ok tag =
     (let body = (if tag \<noteq> [] \<and> last tag = CHR 0x0A then butlast tag else tag)
      in body \<noteq> [] \<and> list_all tag_char body)"

text \<open>\<open>Preset(name, effects_chain_config, description, tags, author, version)\<close>.\<close>

definition Preset_init :: "uuid \<Rightarrow> datetime \<Rightarrow> string \<Rightarrow> 'c \<Rightarrow> string option \<Rightarrow> string list option
                            \<Rightarrow> string option \<Rightarrow> string \<Rightarrow> error + 'c Preset" where
  "Preset_init new_id now nm cfg descr tgs auth ver =
     (if nm = [] \<or> length nm < 1 \<or> length nm > 100 then Inl PresetNameLength
      else if (case descr of None \<Rightarrow> False | Some d \<Rightarrow> length d > 500) then Inl DescriptionLength
      else if (case tgs of None \<Rightarrow> False | Some ts \<Rightarrow> ts \<noteq> [] \<and> \<not> list_all tag_ok ts) then Inl BadTag
      else Inr \<lparr>preset_id = new_id, name = nm, description = descr, effects_chain_config = cfg,
                preset_created_at = now, preset_modified_at = now,
                tags = (case tgs of None \<Rightarrow> [] | Some ts \<Rightarrow> ts),
                author = auth, version = ver\<rparr>)"

text \<open>
  The body of the loop of \<open>to_effects_chain\<close> up to the call of \<open>add_effect\<close>: the
  effect built from one entry of \<open>effects_chain_config["effects"]\<close>.
\<close>

definition effect_of_config :: "uuid \<Rightarrow> json \<Rightarrow> error + AudioEffect" where
  "effect_of_config new_id effect_config =
     (case effect_config of
        JDict d \<Rightarrow>
          (case dict_item d ''type'' of
             Inl err \<Rightarrow> Inl err
           | Inr tv \<Rightarrow>
          (case EffectType_call tv of
             Inl err \<Rightarrow> Inl err
           | Inr t \<Rightarrow>
          (case AudioEffect_init new_id (Member t) (dict_get d ''parameters'' (JDict [])) of
             Inl err \<Rightarrow> Inl err
           | Inr effect \<Rightarrow>
               (let effect = set_bypassed effect (dict_get d ''bypassed'' (JBool False))
                in case map_of d ''preset_name'' of
                     None \<Rightarrow> Inr effect
                   | Some n \<Rightarrow> Inr (set_preset_name effect n)))))
      | _ \<Rightarrow> Inl TypeError)"

fun add_configured_effects :: "(nat \<Rightarrow> uuid) \<Rightarrow> datetime \<Rightarrow> nat \<Rightarrow> heap \<Rightarrow> EffectsChain \<Rightarrow> json list
                                \<Rightarrow> error + heap \<times> EffectsChain" where
  "add_configured_effects uuid4 now k h chain [] = Inr (h, chain)"
| "add_configured_effects uuid4 now k h chain (effect_config # rest) =
     (case effect_of_config (uuid4 k) effect_config of
        Inl err \<Rightarrow> Inl err
      | Inr effect \<Rightarrow>
          (case new_obj h effect of
             (r, h1) \<Rightarrow>
               (case add_effect h1 now chain r of
                  Inl err \<Rightarrow> Inl err
                | Inr (h2, chain') \<Rightarrow> add_configured_effects uuid4 now (Suc k) h2 chain' rest)))"

text \<open>
  \<open>to_effects_chain\<close>: \<open>uuid4 0\<close> is the id drawn for the chain, \<open>uuid4 (k + 1)\<close> the
  one drawn for the effect of the \<open>k\<close>-th entry.
\<close>

definition to_effects_chain :: "(nat \<Rightarrow> uuid) \<Rightarrow> datetime \<Rightarrow> heap \<Rightarrow> config Preset
                                 \<Rightarrow> error + heap \<times> EffectsChain" where
  "to_effects_chain uuid4 now h self =
     (case EffectsChain_init (uuid4 0) now (name self) of
        Inl err \<Rightarrow> Inl err
      | Inr chain \<Rightarrow>
          (case py_iter (dict_get (effects_chain_config self) ''effects'' (JList [])) of
             Inl err \<Rightarrow> Inl err
           | Inr configs \<Rightarrow> add_configured_effects uuid4 now 1 h chain configs))"

definition Preset_to_dict :: "stdlib \<Rightarrow> config Preset \<Rightarrow> json" where
  "Preset_to_dict lib self =
     JDict [(''id'', JStr (uuid_str lib (preset_id self))),
            (''name'', JStr (name self)),
            (''description'', opt_str_json (description self)),
            (''effects_chain_config'', JDict (effects_chain_config self)),
            (''created_at'', JStr (isoformat lib (preset_created_at self))),
            (''modified_at'', JStr (isoformat lib (preset_modified_at self))),
            (''tags'', JList (map JStr (tags self))),
            (''author'', opt_str_json (author self)),
            (''version'', JStr (version self))]"

text \<open>The keyword arguments that \<open>from_dict\<close> passes to the constructor.\<close>

record preset_args =
  arg_name :: string
  arg_config :: config
  arg_description :: "string option"
  arg_tags :: "string list option"
  arg_author :: "string option"
  arg_version :: string

definition preset_args_of :: "(string \<times> json) list \<Rightarrow> error + preset_args" where
  "preset_args_of d =
     (case dict_item d ''name'' of Inl err \<Rightarrow> Inl err | Inr nv \<Rightarrow>
     (case dict_item d ''effects_chain_config'' of Inl err \<Rightarrow> Inl err | Inr cv \<Rightarrow>
     (case as_str nv of Inl err \<Rightarrow> Inl err | Inr nm \<Rightarrow>
     (case as_dict cv of Inl err \<Rightarrow> Inl err | Inr cfg \<Rightarrow>
     (case as_opt_str (dict_get d ''description'' JNull) of Inl err \<Rightarrow> Inl err | Inr descr \<Rightarrow>
     (case as_opt_str_list (dict_get d ''tags'' (JList [])) of Inl err \<Rightarrow> Inl err | Inr tgs \<Rightarrow>
     (case as_opt_str (dict_get d ''author'' JNull) of Inl err \<Rightarrow> Inl err | Inr auth \<Rightarrow>
     (case as_str (dict_get d ''version'' (JStr ''1.0.0'')) of Inl err \<Rightarrow> Inl err | Inr ver \<Rightarrow>
        Inr \<lparr>arg_name = nm, arg_config = cfg, arg_description = descr, arg_tags = tgs,
              arg_author = auth, arg_version = ver\<rparr>))))))))"

definition Preset_from_dict :: "stdlib \<Rightarrow> uuid \<Rightarrow> datetime \<Rightarrow> json \<Rightarrow> error + config Preset" where
  "Preset_from_dict lib new_id now data =
     (case data of
        JDict d \<Rightarrow>
          (case preset_args_of d of
             Inl err \<Rightarrow> Inl err
           | Inr a \<Rightarrow>
          (case Preset_init new_id now (arg_name a) (arg_config a) (arg_description a)
                  (arg_tags a) (arg_author a) (arg_version a) of
             Inl err \<Rightarrow> Inl err
           | Inr preset \<Rightarrow>
          (case (case map_of d ''id'' of
                   None \<Rightarrow> Inr preset
                 | Some v \<Rightarrow> (case UUID_call lib v of
                                Inl err \<Rightarrow> Inl err
                              | Inr u \<Rightarrow> Inr (preset\<lparr>preset_id := u\<rparr>))) of
             Inl err \<Rightarrow> Inl err
           | Inr preset \<Rightarrow>
          (case (case map_of d ''created_at'' of
                   None \<Rightarrow> Inr preset
                 | Some v \<Rightarrow> (case fromisoformat_call lib v of
                                Inl err \<Rightarrow> Inl err
                              | Inr t \<Rightarrow> Inr (preset\<lparr>preset_created_at := t\<rparr>))) of
             Inl err \<Rightarrow> Inl err
           | Inr preset \<Rightarrow>
               (case map_of d ''modified_at'' of
                  None \<Rightarrow> Inr preset
                | Some v \<Rightarrow> (case fromisoformat_call lib v of
                               Inl err \<Rightarrow> Inl err
                             | Inr t \<Rightarrow> Inr (preset\<lparr>preset_modified_at := t\<rparr>)))))))
      | _ \<Rightarrow> Inl TypeError)"

text \<open>
  \<open>to_json\<close> and \<open>from_json\<close> on the tree of the JSON text; \<open>from_json\<close> wraps every
  exception of \<open>from_dict\<close>.
\<close>

definition to_json :: "stdlib \<Rightarrow> config Preset \<Rightarrow> json" where
  "to_json lib self = Preset_to_dict lib self"

definition from_json :: "stdlib \<Rightarrow> uuid \<Rightarrow> datetime \<Rightarrow> json \<Rightarrow> error + config Preset" where
  "from_json lib new_id now doc =
     (case Preset_from_dict lib new_id now doc of
        Inl err \<Rightarrow> Inl (InvalidPresetData err)
      | Inr preset \<Rightarrow> Inr preset)"

text \<open>
  \<open>Preset.update\<close> assigns field by field and may raise after some fields were
  assigned: the result is the error, if any, and the state of the object.
\<close>

definition Preset_update :: "datetime \<Rightarrow> 'c Preset \<Rightarrow> string option \<Rightarrow> string option
                              \<Rightarrow> string list option \<Rightarrow> 'c option \<Rightarrow> error option \<times> 'c Preset" where
  "Preset_update now self nm descr tgs cfg =
     (if (case nm of None \<Rightarrow> False | Some n \<Rightarrow> length n < 1 \<or> length n > 100)
      then (Some PresetNameLength, self)
      else
        (let self = (case nm of None \<Rightarrow> self | Some n \<Rightarrow> self\<lparr>name := n\<rparr>)
         in if (case descr of None \<Rightarrow> False | Some d \<Rightarrow> length d > 500)
            then (Some DescriptionLength, self)
            else
              (let self = (case descr of None \<Rightarrow> self | Some d \<Rightarrow> self\<lparr>description := Some d\<rparr>)
               in if (case tgs of None \<Rightarrow> False | Some ts \<Rightarrow> \<not> list_all tag_ok ts)
                  then (Some BadTag, self)
                  else
                    (let self = (case tgs of None \<Rightarrow> self | Some ts \<Rightarrow> self\<lparr>tags := ts\<rparr>);
                         self = (case cfg of None \<Rightarrow> self | Some c \<Rightarrow> self\<lparr>effects_chain_config := c\<rparr>)
                     in (None, self\<lparr>preset_modified_at := now\<rparr>)))))"

text \<open>The state in which the constructor and \<open>update\<close> leave the validated fields.\<close>

definition preset_valid :: "'c Preset \<Rightarrow> bool" where
  "preset_valid p =
     (1 \<le> length (name p) \<and> length (name p) \<le> 100
      \<and> (case description p of None \<Rightarrow> True | Some d \<Rightarrow> length d \<le> 500)
      \<and> list_all tag_ok (tags p))"

subsection \<open>What the specification says about reconstruction\<close>

text \<open>A Python dictionary has each key once, at every level of the data.\<close>

fun wf_json :: "json \<Rightarrow> bool" where
  "wf_json (JList xs) = list_all wf_json xs"
| "wf_json (JDict kvs) = (distinct (map fst kvs) \<and> list_all (\<lambda>kv. wf_json (snd kv)) kvs)"
| "wf_json _ = True"

text \<open>
  The claim's words: the effect matches the descriptor \<^emph>\<open>exactly\<close> in kind, parameters
  and bypassed flag.
\<close>

definition matches_descriptor :: "AudioEffect \<Rightarrow> json \<Rightarrow> bool" where
  "matches_descriptor e d =
     (case d of
        JDict kv \<Rightarrow>
          map_of kv ''type'' = Some (JStr (EffectType_value (effect_type e)))
          \<and> map_of kv ''parameters'' = Some (JDict (parameters e))
          \<and> map_of kv ''bypassed'' = Some (bypassed e)
      | _ \<Rightarrow> False)"

text \<open>
  What the code guarantees: the effect at index \<open>i\<close> has the descriptor's kind, its
  \<open>bypassed\<close> value (\<open>False\<close> when absent), position \<open>i\<close>, and as parameters the
  kind's defaults overridden by the descriptor's parameters, booleans coerced.
\<close>

text \<open>The dictionary in a parameters argument; nothing is applied from any other value.\<close>

definition override_of :: "json \<Rightarrow> (string \<times> json) list" where
  "override_of p = (case p of JDict ov \<Rightarrow> ov | _ \<Rightarrow> [])"

definition descriptor_parameters :: "(string \<times> json) list \<Rightarrow> (string \<times> json) list" where
  "descriptor_parameters kv = (case dict_get kv ''parameters'' (JDict []) of JDict ov \<Rightarrow> ov | _ \<Rightarrow> [])"

definition rebuilt_from :: "AudioEffect \<Rightarrow> nat \<Rightarrow> json \<Rightarrow> bool" where
  "rebuilt_from e i d =
     (case d of
        JDict kv \<Rightarrow>
          map_of kv ''type'' = Some (JStr (EffectType_value (effect_type e)))
          \<and> bypassed e = dict_get kv ''bypassed'' (JBool False)
          \<and> position e = JInt (int i)
          \<and> parameters e = expected_parameters (effect_type e) (descriptor_parameters kv)
      | _ \<Rightarrow> False)"

definition chain_rebuilt_from :: "heap \<Rightarrow> EffectsChain \<Rightarrow> json list \<Rightarrow> bool" where
  "chain_rebuilt_from h c descs =
     (length (effects c) = length descs
      \<and> list_all (\<lambda>i. rebuilt_from (objs h (effects c ! i)) i (descs ! i)) [0..<length descs])"

subsection \<open>Two presets\<close>

text \<open>
  \<open>my_lead\<close> stores a Boost with one parameter and a bypassed Delay; \<open>hot_preset\<close>
  stores a Boost whose gain is above the maximum of the schema.
\<close>

definition my_lead :: "config Preset" where
  "my_lead =
     \<lparr>preset_id = 3, name = ''My Lead'', description = None,
      effects_chain_config =
        [(''name'', JStr ''Lead''),
         (''effects'', JList [JDict [(''type'', JStr ''BOOST''),
                                     (''parameters'', JDict [(''gain_db'', JFloat 6)]),
                                     (''bypassed'', JBool False)],
                              JDict [(''type'', JStr ''DELAY''),
                                     (''parameters'', JDict [(''tempo_sync'', JInt 1)]),
                                     (''bypassed'', JBool True)]])],
      preset_created_at = 1, preset_modified_at = 2, tags = [''rock''], author = None,
      version = ''1.0.0''\<rparr>"

definition hot_preset :: "config Preset" where
  "hot_preset =
     \<lparr>preset_id = 4, name = ''Hot'', description = None,
      effects_chain_config =
        [(''name'', JStr ''Lead''),
         (''effects'', JList [JDict [(''type'', JStr ''BOOST''),
                                     (''parameters'', JDict [(''gain_db'', JFloat 31), (''tone'', JFloat 0.5)]),
                                     (''bypassed'', JBool False)]])],
      preset_created_at = 1, preset_modified_at = 2, tags = [], author = None,
      version = ''1.0.0''\<rparr>"

text \<open>The identifiers that \<open>uuid4()\<close> returns in the examples.\<close>

definition draw :: "nat \<Rightarrow> uuid" where
  "draw k = 50 + k"

text \<open>
  Claim C1 as it is stated: serialising, deserialising and reconstructing yields a chain
  whose effects match the entries of \<open>effects_chain_config["effects"]\<close> exactly, in
  order.
\<close>

definition exact_roundtrip :: "stdlib \<Rightarrow> (nat \<Rightarrow> uuid) \<Rightarrow> datetime \<Rightarrow> heap \<Rightarrow> config Preset \<Rightarrow> bool" where
  "exact_roundtrip lib uuid4 now h p =
     (case from_json lib (uuid4 0) now (to_json lib p) of
        Inl _ \<Rightarrow> False
      | Inr p' \<Rightarrow>
          (case to_effects_chain uuid4 now h p' of
             Inl _ \<Rightarrow> False
           | Inr (h', c) \<Rightarrow>
               (case py_iter (dict_get (effects_chain_config p) ''effects'' (JList [])) of
                  Inl _ \<Rightarrow> False
                | Inr descs \<Rightarrow>
                    length (effects c) = length descs
                    \<and> list_all (\<lambda>i. matches_descriptor (objs h' (effects c ! i)) (descs ! i))
                         [0..<length descs])))"

section \<open>effects\_manager.py\<close>

text \<open>
  The manager owns the chains by id; \<open>current_chain\<close> is the id of the object that
  \<open>_current_chain\<close> refers to. \<open>update_chain\<close> mutates the chain object in place and
  returns it.
\<close>

record EffectsManager =
  current_chain :: "uuid option"
  chains :: "(uuid \<times> EffectsChain) list"

definition activate :: "datetime \<Rightarrow> EffectsChain \<Rightarrow> EffectsChain" where
  "activate now self = self\<lparr>active := JBool True, modified_at := now\<rparr>"

definition deactivate :: "datetime \<Rightarrow> EffectsChain \<Rightarrow> EffectsChain" where
  "deactivate now self = self\<lparr>active := JBool False, modified_at := now\<rparr>"

definition EffectsManager_init :: "uuid \<Rightarrow> datetime \<Rightarrow> error + EffectsManager" where
  "EffectsManager_init new_id now =
     (case EffectsChain_init new_id now ''Default Chain'' of
        Inl err \<Rightarrow> Inl err
      | Inr chain \<Rightarrow> Inr \<lparr>current_chain = Some (chain_id chain), chains = [(chain_id chain, chain)]\<rparr>)"

definition update_chain :: "datetime \<Rightarrow> EffectsManager \<Rightarrow> uuid \<Rightarrow> (string \<times> json) list
                             \<Rightarrow> error + EffectsManager \<times> EffectsChain" where
  "update_chain now self cid update_config =
     (case map_of (chains self) cid of
        None \<Rightarrow> Inl ChainNotFound
      | Some chain \<Rightarrow>
          (case (case map_of update_config ''name'' of
                   None \<Rightarrow> Inr chain
                 | Some nv \<Rightarrow> (case as_str nv of
                                 Inl err \<Rightarrow> Inl err
                               | Inr nm \<Rightarrow> Inr (chain\<lparr>chain_name := nm\<rparr>))) of
             Inl err \<Rightarrow> Inl err
           | Inr chain \<Rightarrow>
               (let chain = (case map_of update_config ''active'' of
                               None \<Rightarrow> chain
                             | Some a \<Rightarrow> if py_truthy a then activate now chain
                                         else deactivate now chain)
                in Inr (self\<lparr>chains := AList.update cid chain (chains self)\<rparr>, chain))))"

text \<open>The manager right after construction, and a name of 51 characters.\<close>

definition default_manager :: EffectsManager where
  "default_manager =
     \<lparr>current_chain = Some 1,
      chains = [(1, \<lparr>chain_id = 1, chain_name = ''Default Chain'', effects = [],
                     active = JBool False, created_at = 0, modified_at = 0\<rparr>)]\<rparr>"

definition long_name :: string where
  "long_name = replicate 51 CHR ''x''"

section \<open>preset\_manager.py\<close>

text \<open>
  The store: the two dictionaries held in memory, and the preset files by id
  (the content of a file is the tree of its JSON text). Whether writing a file succeeds
  is an input, \<open>disk_ok\<close>. Every operation returns its result or error together with
  the state of the store after it, because several of them change the dictionaries and
  raise afterwards.
\<close>

record PresetManager =
  presets :: "(uuid \<times> config Preset) list"
  preset_names :: "(string \<times> uuid) list"
  files :: "(uuid \<times> json) list"

definition save_to_file :: "stdlib \<Rightarrow> bool \<Rightarrow> PresetManager \<Rightarrow> config Preset \<Rightarrow> error + PresetManager" where
  "save_to_file lib disk_ok self preset =
     (if disk_ok
      then Inr (self\<lparr>files := AList.update (preset_id preset) (to_json lib preset) (files self)\<rparr>)
      else Inl IOError)"

fun as_opt_dict :: "json \<Rightarrow> error + config option" where
  "as_opt_dict JNull = Inr None"
| "as_opt_dict (JDict d) = Inr (Some d)"
| "as_opt_dict _ = Inl IllTyped"

text \<open>The body of the \<open>try\<close> of \<open>save_preset\<close>.\<close>

definition create_and_store :: "stdlib \<Rightarrow> uuid \<Rightarrow> datetime \<Rightarrow> bool \<Rightarrow> PresetManager \<Rightarrow> string
                                 \<Rightarrow> json \<Rightarrow> (string \<times> json) list \<Rightarrow> error + config Preset \<times> PresetManager" where
  "create_and_store lib new_id now disk_ok self nm cv preset_config =
     (case as_dict cv of Inl err \<Rightarrow> Inl err | Inr cfg \<Rightarrow>
     (case as_opt_str (dict_get preset_config ''description'' JNull) of Inl err \<Rightarrow> Inl err | Inr descr \<Rightarrow>
     (case as_opt_str_list (dict_get preset_config ''tags'' JNull) of Inl err \<Rightarrow> Inl err | Inr tgs \<Rightarrow>
     (case as_opt_str (dict_get preset_config ''author'' JNull) of Inl err \<Rightarrow> Inl err | Inr auth \<Rightarrow>
     (case as_str (dict_get preset_config ''version'' (JStr ''1.0.0'')) of Inl err \<Rightarrow> Inl err | Inr ver \<Rightarrow>
     (case Preset_init new_id now nm cfg descr tgs auth ver of Inl err \<Rightarrow> Inl err | Inr preset \<Rightarrow>
     (case save_to_file lib disk_ok self preset of Inl err \<Rightarrow> Inl err | Inr self \<Rightarrow>
        Inr (preset,
             self\<lparr>presets := AList.update (preset_id preset) preset (presets self),
                   preset_names := AList.update (name preset) (preset_id preset) (preset_names self)\<rparr>))))))))"

definition save_preset :: "stdlib \<Rightarrow> uuid \<Rightarrow> datetime \<Rightarrow> bool \<Rightarrow> PresetManager \<Rightarrow> (string \<times> json) list
                            \<Rightarrow> (error + config Preset) \<times> PresetManager" where
  "save_preset lib new_id now disk_ok self preset_config =
     (case map_of preset_config ''name'' of
        None \<Rightarrow> (Inl MissingName, self)
      | Some nv \<Rightarrow>
     (case map_of preset_config ''effects_chain_config'' of
        None \<Rightarrow> (Inl MissingConfig, self)
      | Some cv \<Rightarrow>
     (case as_str nv of
        Inl err \<Rightarrow> (Inl err, self)
      | Inr nm \<Rightarrow>
          if map_of (preset_names self) nm \<noteq> None then (Inl PresetNameExists, self)
          else
            (case create_and_store lib new_id now disk_ok self nm cv preset_config of
               Inl err \<Rightarrow> (Inl (FailedToSave err), self)
             | Inr (preset, self') \<Rightarrow> (Inr preset, self')))))"

text \<open>
  The first part of \<open>update_preset\<close>: the name index is changed before the patch is
  validated. \<open>del self._preset_names[preset.name]\<close> raises \<open>KeyError\<close> when the name
  is not indexed.
\<close>

definition reindex :: "PresetManager \<Rightarrow> uuid \<Rightarrow> config Preset \<Rightarrow> (string \<times> json) list \<Rightarrow> error + PresetManager" where
  "reindex self pid preset update_config =
     (case map_of update_config ''name'' of
        None \<Rightarrow> Inr self
      | Some nv \<Rightarrow>
          (case as_str nv of
             Inl err \<Rightarrow> Inl err
           | Inr nm \<Rightarrow>
               if nm = name preset then Inr self
               else if (case map_of (preset_names self) nm of None \<Rightarrow> False | Some existing_id \<Rightarrow> existing_id \<noteq> pid)
               then Inl PresetNameExists
               else if map_of (preset_names self) (name preset) = None then Inl (KeyError (name preset))
               else Inr (self\<lparr>preset_names :=
                           AList.update nm pid (AList.delete (name preset) (preset_names self))\<rparr>)))"

text \<open>
  The \<open>try\<close> of \<open>update_preset\<close>. The preset object is updated in place, so what
  \<open>Preset.update\<close> assigned before it raised stays in \<open>_presets\<close>.
\<close>

definition update_preset :: "stdlib \<Rightarrow> datetime \<Rightarrow> bool \<Rightarrow> PresetManager \<Rightarrow> uuid \<Rightarrow> (string \<times> json) list
                              \<Rightarrow> (error + config Preset) \<times> PresetManager" where
  "update_preset lib now disk_ok self pid update_config =
     (case map_of (presets self) pid of
        None \<Rightarrow> (Inl PresetNotFound, self)
      | Some preset \<Rightarrow>
     (case reindex self pid preset update_config of
        Inl err \<Rightarrow> (Inl err, self)
      | Inr self \<Rightarrow>
     (case as_opt_str (dict_get update_config ''name'' JNull) of Inl err \<Rightarrow> (Inl err, self) | Inr nm \<Rightarrow>
     (case as_opt_str (dict_get update_config ''description'' JNull) of Inl err \<Rightarrow> (Inl err, self) | Inr descr \<Rightarrow>
     (case as_opt_str_list (dict_get update_config ''tags'' JNull) of Inl err \<Rightarrow> (Inl err, self) | Inr tgs \<Rightarrow>
     (case as_opt_dict (dict_get update_config ''effects_chain_config'' JNull) of Inl err \<Rightarrow> (Inl err, self) | Inr cfg \<Rightarrow>
     (case Preset_update now preset nm descr tgs cfg of
        (Some err, preset') \<Rightarrow>
          (Inl (InvalidPresetData err), self\<lparr>presets := AList.update pid preset' (presets self)\<rparr>)
      | (None, preset') \<Rightarrow>
          (let self = self\<lparr>presets := AList.update pid preset' (presets self)\<rparr>
           in case save_to_file lib disk_ok self preset' of
                Inl err \<Rightarrow> (Inl (InvalidPresetData err), self)
              | Inr self \<Rightarrow> (Inr preset', self)))))))))"

definition delete_preset :: "PresetManager \<Rightarrow> uuid \<Rightarrow> (error + bool) \<times> PresetManager" where
  "delete_preset self pid =
     (case map_of (presets self) pid of
        None \<Rightarrow> (Inl PresetNotFound, self)
      | Some preset \<Rightarrow>
          (let self = self\<lparr>files := AList.delete pid (files self),
                            presets := AList.delete pid (presets self)\<rparr>
           in if map_of (preset_names self) (name preset) = None
              then (Inl (FailedToDelete (KeyError (name preset))), self)
              else (Inr True, self\<lparr>preset_names := AList.delete (name preset) (preset_names self)\<rparr>)))"

subsection \<open>The invariant of the store\<close>

text \<open>
  Every indexed name maps to a live preset bearing that name, and every live preset is
  indexed under its name with its id; then no two live presets share a name.
\<close>

definition store_consistent :: "PresetManager \<Rightarrow> bool" where
  "store_consistent st =
     (distinct (map fst (presets st)) \<and> distinct (map fst (preset_names st))
      \<and> list_all (\<lambda>(n, i). case map_of (presets st) i of None \<Rightarrow> False | Some p \<Rightarrow> name p = n)
           (preset_names st)
      \<and> list_all (\<lambda>(i, p). map_of (preset_names st) (name p) = Some i) (presets st))"

text \<open>The names of the live presets.\<close>

definition live_names :: "PresetManager \<Rightarrow> string list" where
  "live_names st = map (\<lambda>(i, p). name p) (presets st)"

subsection \<open>A store with one preset\<close>

definition empty_store :: PresetManager where
  "empty_store = \<lparr>presets = [], preset_names = [], files = []\<rparr>"

definition clean_config :: "(string \<times> json) list" where
  "clean_config = [(''name'', JStr ''Clean''),
                   (''effects_chain_config'', JDict [(''name'', JStr ''Chain''), (''effects'', JList [])])]"

definition clean_preset :: "uuid \<Rightarrow> config Preset" where
  "clean_preset i =
     \<lparr>preset_id = i, name = ''Clean'', description = None,
      effects_chain_config = [(''name'', JStr ''Chain''), (''effects'', JList [])],
      preset_created_at = 0, preset_modified_at = 0, tags = [], author = None,
      version = ''1.0.0''\<rparr>"

definition clean_store :: PresetManager where
  "clean_store = \<lparr>presets = [(1, clean_preset 1)], preset_names = [(''Clean'', 1)],
                   files = [(1, to_json stroke_lib (clean_preset 1))]\<rparr>"

section \<open>Preset.copy and shared containers\<close>

text \<open>
  \<open>Preset.copy\<close> calls \<open>dict.copy()\<close> on the configuration, and whether the copy
  shares containers with the original shows only when dictionaries and lists are
  objects. Here a value is a scalar or a reference to a list or a dictionary in a store
  of containers; \<open>next_addr\<close> is the first unused address.
\<close>

type_synonym addr = nat

datatype pyval = VNone | VBool bool | VInt int | VFloat real | VStr string | VRef addr

datatype pyobj = PyList "pyval list" | PyDict "(string \<times> pyval) list"

record pystore =
  cells :: "addr \<Rightarrow> pyobj"
  next_addr :: addr

text \<open>\<open>x.copy()\<close> for a list or a dictionary: a new container with the same items.\<close>

definition container_copy :: "pystore \<Rightarrow> addr \<Rightarrow> addr \<times> pystore" where
  "container_copy st a =
     (next_addr st, st\<lparr>cells := (cells st)(next_addr st := cells st a), next_addr := Suc (next_addr st)\<rparr>)"

text \<open>\<open>x[k]\<close>, \<open>x[i]\<close>, \<open>x[k] = v\<close> and \<open>x.append(v)\<close> on a value.\<close>

definition getitem :: "pystore \<Rightarrow> pyval \<Rightarrow> string \<Rightarrow> error + pyval" where
  "getitem st x k =
     (case x of
        VRef a \<Rightarrow>
          (case cells st a of
             PyDict kvs \<Rightarrow> (case map_of kvs k of None \<Rightarrow> Inl (KeyError k) | Some v \<Rightarrow> Inr v)
           | PyList xs \<Rightarrow> Inl TypeError)
      | _ \<Rightarrow> Inl TypeError)"

definition getindex :: "pystore \<Rightarrow> pyval \<Rightarrow> nat \<Rightarrow> error + pyval" where
  "getindex st x i =
     (case x of
        VRef a \<Rightarrow>
          (case cells st a of
             PyList xs \<Rightarrow> (if i < length xs then Inr (xs ! i) else Inl IndexError)
           | PyDict kvs \<Rightarrow> Inl (KeyError []))
      | _ \<Rightarrow> Inl TypeError)"

definition setitem :: "pystore \<Rightarrow> pyval \<Rightarrow> string \<Rightarrow> pyval \<Rightarrow> error + pystore" where
  "setitem st x k v =
     (case x of
        VRef a \<Rightarrow>
          (case cells st a of
             PyDict kvs \<Rightarrow> Inr (st\<lparr>cells := (cells st)(a := PyDict (AList.update k v kvs))\<rparr>)
           | PyList xs \<Rightarrow> Inl TypeError)
      | _ \<Rightarrow> Inl TypeError)"

definition py_append :: "pystore \<Rightarrow> pyval \<Rightarrow> pyval \<Rightarrow> error + pystore" where
  "py_append st x v =
     (case x of
        VRef a \<Rightarrow>
          (case cells st a of
             PyList xs \<Rightarrow> Inr (st\<lparr>cells := (cells st)(a := PyList (xs @ [v]))\<rparr>)
           | PyDict kvs \<Rightarrow> Inl AttributeError)
      | _ \<Rightarrow> Inl AttributeError)"

text \<open>
  The data a value denotes, read through the references, to a depth of \<open>fuel\<close>
  containers (a store may hold cycles; \<open>None\<close> says the depth did not suffice).
\<close>

fun snapshot :: "nat \<Rightarrow> pystore \<Rightarrow> pyval \<Rightarrow> json option" where
  "snapshot fuel st VNone = Some JNull"
| "snapshot fuel st (VBool b) = Some (JBool b)"
| "snapshot fuel st (VInt n) = Some (JInt n)"
| "snapshot fuel st (VFloat x) = Some (JFloat x)"
| "snapshot fuel st (VStr s) = Some (JStr s)"
| "snapshot 0 st (VRef a) = None"
| "snapshot (Suc fuel) st (VRef a) =
     (case cells st a of
        PyList xs \<Rightarrow> map_option JList (those (map (snapshot fuel st) xs))
      | PyDict kvs \<Rightarrow>
          map_option JDict
            (those (map (\<lambda>kv. map_option (Pair (fst kv)) (snapshot fuel st (snd kv))) kvs)))"

text \<open>
  \<open>Preset.copy(new_name)\<close> on a preset whose configuration is the dictionary at
  \<open>effects_chain_config self\<close>. The tags are strings, which cannot be mutated, so the
  copied list of tags is a value.
\<close>

definition Preset_copy :: "pystore \<Rightarrow> uuid \<Rightarrow> datetime \<Rightarrow> addr Preset \<Rightarrow> string option
                            \<Rightarrow> error + pystore \<times> addr Preset" where
  "Preset_copy st new_id now self new_name =
     (let copy_name = (case new_name of
                         None \<Rightarrow> name self @ '' (Copy)''
                       | Some n \<Rightarrow> if n \<noteq> [] then n else name self @ '' (Copy)'')
      in case container_copy st (effects_chain_config self) of
           (a, st') \<Rightarrow>
             (case Preset_init new_id now copy_name a (description self)
                     (if tags self \<noteq> [] then Some (tags self) else None)
                     (author self) (version self) of
                Inl err \<Rightarrow> Inl err
              | Inr preset_copy \<Rightarrow> Inr (st', preset_copy)))"

subsection \<open>A preset in the store of containers\<close>

text \<open>
  The configuration \<open>{"name": "Lead", "effects": [{"type": "BOOST", "parameters":
  {"gain_db": 6.0}, "bypassed": False}]}\<close> with its four containers at the addresses
  0 to 3, and the preset "My Lead" that holds it.
\<close>

definition lead_store :: pystore where
  "lead_store =
     \<lparr>cells = (\<lambda>_. PyList [])
        (0 := PyDict [(''name'', VStr ''Lead''), (''effects'', VRef 1)],
         1 := PyList [VRef 2],
         2 := PyDict [(''type'', VStr ''BOOST''), (''parameters'', VRef 3), (''bypassed'', VBool False)],
         3 := PyDict [(''gain_db'', VFloat 6)]),
      next_addr = 4\<rparr>"

definition lead_original :: "addr Preset" where
  "lead_original =
     \<lparr>preset_id = 3, name = ''My Lead'', description = None, effects_chain_config = 0,
      preset_created_at = 1, preset_modified_at = 2, tags = [''rock''], author = None,
      version = ''1.0.0''\<rparr>"

text \<open>
  \<open>c["effects"][0]["parameters"]["gain_db"] = 12.0\<close> on the configuration \<open>c\<close>.
\<close>

definition set_first_gain :: "pystore \<Rightarrow> addr \<Rightarrow> error + pystore" where
  "set_first_gain st c =
     (case getitem st (VRef c) ''effects'' of Inl err \<Rightarrow> Inl err | Inr effs \<Rightarrow>
     (case getindex st effs 0 of Inl err \<Rightarrow> Inl err | Inr eff \<Rightarrow>
     (case getitem st eff ''parameters'' of Inl err \<Rightarrow> Inl err | Inr params \<Rightarrow>
        setitem st params ''gain_db'' (VFloat 12))))"

text \<open>\<open>c["effects"].append(None)\<close> on the configuration \<open>c\<close>.\<close>

definition append_to_effects :: "pystore \<Rightarrow> addr \<Rightarrow> error + pystore" where
  "append_to_effects st c =
     (case getitem st (VRef c) ''effects'' of Inl err \<Rightarrow> Inl err | Inr effs \<Rightarrow> py_append st effs VNone)"

text \<open>The configuration of the original preset, read as data.\<close>

definition original_config :: "pystore \<Rightarrow> json option" where
  "original_config st = snapshot 4 st (VRef (effects_chain_config lead_original))"

subsection \<open>When a preset can be rebuilt\<close>

text \<open>
  In the specification's words: a parameters argument is valid for a kind when it is a
  dictionary of valid entries, or any falsy value (nothing is applied from it); a
  descriptor is valid when it is a dictionary whose \<open>"type"\<close> names one of the four
  kinds and whose \<open>"parameters"\<close> (absent: empty) are valid for that kind.
\<close>

definition params_valid :: "EffectType \<Rightarrow> json \<Rightarrow> bool" where
  "params_valid t p = (case p of JDict ov \<Rightarrow> entries_valid t ov | _ \<Rightarrow> \<not> py_truthy p)"

definition descriptor_valid :: "json \<Rightarrow> bool" where
  "descriptor_valid d =
     (case d of
        JDict kv \<Rightarrow>
          (case map_of kv ''type'' of
             None \<Rightarrow> False
           | Some tv \<Rightarrow>
               list_ex (\<lambda>t. tv = JStr (EffectType_value t)
                             \<and> params_valid t (dict_get kv ''parameters'' (JDict [])))
                       [BOOST, DISTORTION, DELAY, REVERB])
      | _ \<Rightarrow> False)"

text \<open>
  The entries the loop of \<open>to_effects_chain\<close> runs over:
  \<open>self.effects_chain_config.get("effects", [])\<close>.
\<close>

definition descriptors :: "config Preset \<Rightarrow> error + json list" where
  "descriptors p = py_iter (dict_get (effects_chain_config p) ''effects'' (JList []))"

text \<open>
  A preset can be rebuilt when its name is short enough for a chain and its entries are
  at most \<open>MAX_EFFECTS\<close> valid descriptors.
\<close>

definition rebuildable :: "config Preset \<Rightarrow> bool" where
  "rebuildable p =
     (length (name p) \<le> 50
      \<and> (case descriptors p of
            Inl _ \<Rightarrow> False
          | Inr ds \<Rightarrow> length ds \<le> MAX_EFFECTS \<and> list_all descriptor_valid ds))"

text \<open>\<open>Preset.from_json(P.to_json()).to_effects_chain()\<close>.\<close>

definition roundtrip :: "stdlib \<Rightarrow> uuid \<Rightarrow> datetime \<Rightarrow> (nat \<Rightarrow> uuid) \<Rightarrow> datetime \<Rightarrow> heap
                          \<Rightarrow> config Preset \<Rightarrow> error + heap \<times> EffectsChain" where
  "roundtrip lib new_id t uuid4 now h p =
     (case from_json lib new_id t (to_json lib p) of
        Inl err \<Rightarrow> Inl err
      | Inr p' \<Rightarrow> to_effects_chain uuid4 now h p')"

text \<open>
  Two more presets that the constructor accepts: one with a name of 51 characters, one
  with nine entries.
\<close>

definition long_named :: "config Preset" where
  "long_named = my_lead\<lparr>name := long_name\<rparr>"

definition reverb_entry :: json where
  "reverb_entry = JDict [(''type'', JStr ''REVERB'')]"

definition nine_preset :: "config Preset" where
  "nine_preset = my_lead\<lparr>effects_chain_config :=
      [(''effects'', JList [reverb_entry, reverb_entry, reverb_entry, reverb_entry, reverb_entry,
                            reverb_entry, reverb_entry, reverb_entry, reverb_entry])]\<rparr>"
section \<open>Effect creation (C8)\<close>

lemma distinct_schema: "distinct (map fst (PARAMETER_DEFINITIONS t))"
  by (cases t) simp_all

lemma check_param_respects:
  "check_param pd n v = Inr (coerced pd v)" if "value_respects pd v"
proof (cases "pd_units pd = ''bool''")
  case True
  with that show ?thesis
    by (auto simp: value_respects_def check_param_def coerced_def in_bool_list_def)
next
  case False
  with that show ?thesis
    by (cases v) (auto simp: value_respects_def check_param_def coerced_def)
qed

lemma update_present:
  "distinct (map fst ds) \<Longrightarrow> n \<in> fst ` set ds \<Longrightarrow>
   AList.update n w (map (\<lambda>(m, pd). (m, F m pd)) ds) =
   map (\<lambda>(m, pd). (m, if m = n then w else F m pd)) ds"
proof (induction ds)
  case Nil
  then show ?case by simp
next
  case (Cons d ds)
  obtain m pd where d: "d = (m, pd)" by (cases d)
  show ?case
  proof (cases "m = n")
    case True
    with Cons.prems d have "n \<notin> fst ` set ds" by auto
    then have "map (\<lambda>(m, pd). (m, if m = n then w else F m pd)) ds = map (\<lambda>(m, pd). (m, F m pd)) ds"
      by (intro map_cong) (auto simp: image_iff)
    with True d show ?thesis by simp
  next
    case False
    with Cons d show ?thesis by auto
  qed
qed

lemma update_parameters_respecting:
  assumes "list_all (\<lambda>(n, v). case map_of (PARAMETER_DEFINITIONS (effect_type e)) n of
                            None \<Rightarrow> False | Some pd \<Rightarrow> value_respects pd v) ov"
    and "distinct (map fst ov)"
    and "parameters e = map (\<lambda>(m, pd). (m, F m pd)) (PARAMETER_DEFINITIONS (effect_type e))"
  shows "update_parameters e ov =
           (None, e\<lparr>parameters :=
              map (\<lambda>(m, pd). (m, case map_of ov m of None \<Rightarrow> F m pd | Some v \<Rightarrow> coerced pd v))
                  (PARAMETER_DEFINITIONS (effect_type e))\<rparr>)"
  using assms
proof (induction ov arbitrary: e F)
  case Nil
  then show ?case by simp
next
  case (Cons a ov)
  obtain n v where a: "a = (n, v)" by (cases a)
  let ?ds = "PARAMETER_DEFINITIONS (effect_type e)"
  from Cons.prems(1) a obtain pd where pd: "map_of ?ds n = Some pd" and vr: "value_respects pd v"
    by (auto split: option.splits)
  have nin: "n \<in> fst ` set ?ds" using pd by (metis map_of_eq_None_iff option.distinct(1))
  let ?F = "\<lambda>m pd'. if m = n then coerced pd v else F m pd'"
  let ?e1 = "e\<lparr>parameters := AList.update n (coerced pd v) (parameters e)\<rparr>"
  have p1: "parameters ?e1 = map (\<lambda>(m, pd). (m, ?F m pd)) (PARAMETER_DEFINITIONS (effect_type ?e1))"
    using update_present[OF distinct_schema nin, of "coerced pd v" F] Cons.prems(3) by simp
  have l1: "list_all (\<lambda>(n, v). case map_of (PARAMETER_DEFINITIONS (effect_type ?e1)) n of
                            None \<Rightarrow> False | Some pd \<Rightarrow> value_respects pd v) ov"
    using Cons.prems(1) by simp
  have d1: "distinct (map fst ov)" and nov: "n \<notin> fst ` set ov" using Cons.prems(2) a by auto
  have ih: "update_parameters ?e1 ov =
      (None, ?e1\<lparr>parameters :=
              map (\<lambda>(m, pd). (m, case map_of ov m of None \<Rightarrow> ?F m pd | Some v \<Rightarrow> coerced pd v))
                  (PARAMETER_DEFINITIONS (effect_type ?e1))\<rparr>)"
    by (rule Cons.IH[OF l1 d1 p1])
  have mo: "map_of ov n = None" using nov by (simp add: map_of_eq_None_iff)
  have eqmap: "map (\<lambda>(m, pd). (m, case map_of ov m of None \<Rightarrow> ?F m pd | Some v \<Rightarrow> coerced pd v)) ?ds
       = map (\<lambda>(m, pd). (m, case map_of (a # ov) m of None \<Rightarrow> F m pd | Some v \<Rightarrow> coerced pd v)) ?ds"
  proof (rule map_cong[OF refl])
    fix x assume x: "x \<in> set ?ds"
    obtain m pd' where xm: "x = (m, pd')" by (cases x)
    have "m = n \<Longrightarrow> pd' = pd" using x xm pd distinct_schema[of "effect_type e"]
      by (metis map_of_is_SomeI option.inject)
    then show "(case x of (m, pd) \<Rightarrow> (m, case map_of ov m of None \<Rightarrow> ?F m pd | Some v \<Rightarrow> coerced pd v))
       = (case x of (m, pd) \<Rightarrow> (m, case map_of (a # ov) m of None \<Rightarrow> F m pd | Some v \<Rightarrow> coerced pd v))"
      using xm a mo by auto
  qed
  show ?case
    using ih eqmap a pd check_param_respects[OF vr, of n] by simp
qed


lemma resolve_kind_denotes: "kind_denotes K t \<Longrightarrow> resolve_kind K = Inr t"
  by (cases t) (auto simp: kind_denotes_def resolve_kind_def EffectType_call_def)

lemma default_in_range:
  "(n, pd) \<in> set (PARAMETER_DEFINITIONS t) \<Longrightarrow> in_range pd (pd_default pd)"
  by (cases t) (auto simp: in_range_def pdef_def)

lemma bool_param_bounds:
  "(n, pd) \<in> set (PARAMETER_DEFINITIONS t) \<Longrightarrow> pd_units pd = ''bool'' \<Longrightarrow> pd_min pd \<le> 0 \<and> 1 \<le> pd_max pd"
  by (cases t) (auto simp: pdef_def)

lemma coerced_in_range:
  assumes "(n, pd) \<in> set (PARAMETER_DEFINITIONS t)" and "value_respects pd v"
  shows "in_range pd (coerced pd v)"
proof (cases "pd_units pd = ''bool''")
  case True
  with assms(2) have "v \<in> {JBool True, JBool False, JInt 0, JInt 1}"
    by (simp add: value_respects_def)
  with True bool_param_bounds[OF assms(1) True] show ?thesis
    by (auto simp: in_range_def coerced_def)
next
  case False
  with assms(2) show ?thesis
    by (cases v) (auto simp: value_respects_def in_range_def coerced_def)
qed

lemma expected_in_range:
  assumes "respects_schema t ov"
  shows "list_all2 (\<lambda>(n, pd) (m, v). m = n \<and> in_range pd v)
           (PARAMETER_DEFINITIONS t) (expected_parameters t ov)"
proof -
  have "in_range pd (case map_of ov n of None \<Rightarrow> pd_default pd | Some v \<Rightarrow> coerced pd v)"
    if mem: "(n, pd) \<in> set (PARAMETER_DEFINITIONS t)" for n pd
  proof (cases "map_of ov n")
    case None
    with default_in_range[OF mem] show ?thesis by simp
  next
    case (Some v)
    then have "(n, v) \<in> set ov" by (rule map_of_SomeD)
    with assms obtain pd' where p: "map_of (PARAMETER_DEFINITIONS t) n = Some pd'" "value_respects pd' v"
      by (auto simp: respects_schema_def list_all_iff split: option.splits)
    have "map_of (PARAMETER_DEFINITIONS t) n = Some pd"
      using mem distinct_schema by (rule_tac map_of_is_SomeI) auto
    with p have "value_respects pd v" by simp
    with Some coerced_in_range[OF mem] show ?thesis by simp
  qed
  then show ?thesis
    unfolding expected_parameters_def list_all2_map2
    by (intro list_all2_all_nthI) (auto simp: in_set_conv_nth split: prod.splits)
qed

text \<open>
  Claim C8. For every valid effect kind \<open>K\<close> (a member of the enumeration or its
  name) and every override dictionary whose keys belong to the kind's schema and whose
  values have the schema's types and lie within its bounds, the constructor succeeds;
  the parameters of the new effect are the schema defaults overridden exactly by the
  overrides (boolean parameters coerced to \<open>True\<close>/\<open>False\<close>), with one entry per
  schema field in schema order, and every value lies within its \<open>[min, max]\<close>.
\<close>

theorem C8_create_defaults_overridden:
  assumes "kind_denotes K t" and "respects_schema t ov"
  shows "\<exists>e. AudioEffect_init new_id K (JDict ov) = Inr e \<and> effect_type e = t
            \<and> parameters e = expected_parameters t ov
            \<and> list_all2 (\<lambda>(n, pd) (m, v). m = n \<and> in_range pd v)
                 (PARAMETER_DEFINITIONS t) (parameters e)"
proof -
  let ?self = "\<lparr>effect_id = new_id, effect_type = t, bypassed = JBool False,
                 position = JInt 0, preset_name = JNull,
                 parameters = default_parameters t\<rparr>"
  have rk: "resolve_kind K = Inr t" using assms(1) by (rule resolve_kind_denotes)
  have dp: "parameters ?self = map (\<lambda>(m, pd). (m, pd_default pd)) (PARAMETER_DEFINITIONS (effect_type ?self))"
    by (simp add: default_parameters_def)
  have la: "list_all (\<lambda>(n, v). case map_of (PARAMETER_DEFINITIONS (effect_type ?self)) n of
                            None \<Rightarrow> False | Some pd \<Rightarrow> value_respects pd v) ov"
    and di: "distinct (map fst ov)"
    using assms(2) by (simp_all add: respects_schema_def)
  have up: "update_parameters ?self ov = (None, ?self\<lparr>parameters := expected_parameters t ov\<rparr>)"
    using update_parameters_respecting[OF la di, of "\<lambda>m pd. pd_default pd"] dp
    by (simp add: expected_parameters_def)
  have emp: "ov = [] \<Longrightarrow> expected_parameters t ov = default_parameters t"
    by (simp add: expected_parameters_def default_parameters_def)
  have "AudioEffect_init new_id K (JDict ov) = Inr (?self\<lparr>parameters := expected_parameters t ov\<rparr>)"
    using rk up emp by (cases "ov = []") (simp_all add: AudioEffect_init_def Let_def)
  with expected_in_range[OF assms(2)] show ?thesis by simp
qed

theorem C8_create_defaults_overridden_witness:
  "kind_denotes (Other (JStr ''DELAY'')) DELAY
   \<and> respects_schema DELAY [(''tempo_sync'', JInt 1), (''mix'', JFloat 0.8)]
   \<and> (\<exists>e. AudioEffect_init 7 (Other (JStr ''DELAY''))
               (JDict [(''tempo_sync'', JInt 1), (''mix'', JFloat 0.8)]) = Inr e
          \<and> parameters e = [(''delay_seconds'', JFloat 0.25), (''feedback'', JFloat 0.3),
                             (''mix'', JFloat 0.8), (''tempo_sync'', JBool True)])"
proof -
  have k: "kind_denotes (Other (JStr ''DELAY'')) DELAY"
    by (simp add: kind_denotes_def)
  have r: "respects_schema DELAY [(''tempo_sync'', JInt 1), (''mix'', JFloat 0.8)]"
    by (simp add: respects_schema_def value_respects_def pdef_def)
  have e: "expected_parameters DELAY [(''tempo_sync'', JInt 1), (''mix'', JFloat 0.8)]
             = [(''delay_seconds'', JFloat 0.25), (''feedback'', JFloat 0.3),
                (''mix'', JFloat 0.8), (''tempo_sync'', JBool True)]"
    by (simp add: expected_parameters_def coerced_def pdef_def)
  from C8_create_defaults_overridden[OF k r, of 7] e k r show ?thesis by auto
qed

section \<open>Parameter updates (C7)\<close>

lemma update_parameters_frame:
  "update_parameters e upd = (r, e') \<Longrightarrow> e' = e\<lparr>parameters := parameters e'\<rparr>"
proof (induction upd arbitrary: e)
  case Nil
  then show ?case by simp
next
  case (Cons a upd)
  obtain k v where a: "a = (k, v)" by (cases a)
  show ?case
  proof (cases "stored_value (effect_type e) k v")
    case None
    with Cons.prems a have "e' = e"
      by (auto simp: stored_value_def split: option.splits sum.splits)
    then show ?thesis by simp
  next
    case (Some w)
    let ?e1 = "e\<lparr>parameters := AList.update k w (parameters e)\<rparr>"
    from Some Cons.prems a have "update_parameters ?e1 upd = (r, e')"
      by (auto simp: stored_value_def split: option.splits sum.splits)
    from Cons.IH[OF this] have "e' = ?e1\<lparr>parameters := parameters e'\<rparr>" .
    then show ?thesis by (metis AudioEffect.surjective AudioEffect.update_convs(6) AudioEffect.select_convs)
  qed
qed


lemma update_parameters_split:
  "update_parameters e upd = (Some err, e') \<Longrightarrow>
   \<exists>pre k v post. upd = pre @ (k, v) # post
      \<and> update_parameters e pre = (None, e')
      \<and> key_error (effect_type e) k v = Some err"
proof (induction upd arbitrary: e)
  case Nil
  then show ?case by simp
next
  case (Cons a upd)
  obtain k0 v0 where a: "a = (k0, v0)" by (cases a)
  show ?case
  proof (cases "stored_value (effect_type e) k0 v0")
    case None
    with Cons.prems a have "e' = e" and "key_error (effect_type e) k0 v0 = Some err"
      by (auto simp: stored_value_def key_error_def split: option.splits sum.splits)
    with a have "a # upd = [] @ (k0, v0) # upd \<and> update_parameters e [] = (None, e')
        \<and> key_error (effect_type e) k0 v0 = Some err" by simp
    then show ?thesis by blast
  next
    case (Some w)
    let ?e1 = "e\<lparr>parameters := AList.update k0 w (parameters e)\<rparr>"
    from Some a have step: "\<And>rest. update_parameters e ((k0, v0) # rest) = update_parameters ?e1 rest"
      by (auto simp: stored_value_def split: option.splits sum.splits)
    with Cons.prems a have "update_parameters ?e1 upd = (Some err, e')" by simp
    from Cons.IH[OF this] obtain pre k v post where
      p: "upd = pre @ (k, v) # post" "update_parameters ?e1 pre = (None, e')"
         "key_error (effect_type ?e1) k v = Some err" by blast
    then have "a # upd = ((k0, v0) # pre) @ (k, v) # post
       \<and> update_parameters e ((k0, v0) # pre) = (None, e')
       \<and> key_error (effect_type e) k v = Some err"
      using a step by simp
    then show ?thesis by blast
  qed
qed



lemma key_error_stored:
  "key_error t k v = None \<longleftrightarrow> stored_value t k v \<noteq> None"
  by (auto simp: key_error_def stored_value_def split: option.splits sum.splits)

lemma key_error_valid:
  "key_error t k v = None \<longleftrightarrow> key_valid t k v"
  by (auto simp: key_error_def key_valid_def check_param_def split: option.splits sum.splits if_splits)

lemma update_parameters_prefix:
  assumes "entries_valid (effect_type e) pre"
  shows "\<exists>e1. update_parameters e pre = (None, e1)
              \<and> update_parameters e (pre @ rest) = update_parameters e1 rest"
  using assms
proof (induction pre arbitrary: e)
  case Nil
  then show ?case by simp
next
  case (Cons a pre)
  obtain k v where a: "a = (k, v)" by (cases a)
  from Cons.prems a have ke: "key_error (effect_type e) k v = None"
    and rest: "entries_valid (effect_type e) pre" by (simp_all add: entries_valid_def key_error_valid)
  from ke obtain w where w: "stored_value (effect_type e) k v = Some w"
    by (auto simp: key_error_stored)
  let ?e1 = "e\<lparr>parameters := AList.update k w (parameters e)\<rparr>"
  from w have step: "\<And>xs. update_parameters e ((k, v) # xs) = update_parameters ?e1 xs"
    by (auto simp: stored_value_def split: option.splits sum.splits)
  from rest have "entries_valid (effect_type ?e1) pre" by simp
  from Cons.IH[OF this] a step show ?case by simp
qed




section \<open>Chain operations (C2, C3)\<close>

lemma store_position_simps [simp]:
  "effect_id (objs (store_position h r i) r') = effect_id (objs h r')"
  "r' \<noteq> r \<Longrightarrow> objs (store_position h r i) r' = objs h r'"
  "position (objs (store_position h r i) r) = JInt (int i)"
  by (simp_all add: store_position_def)

lemma store_position_set_position:
  "set_position (objs h r) (int i) = Inr (objs (store_position h r i) r)"
  by (simp add: set_position_def store_position_def)

lemma upf_effect_id [simp]:
  "effect_id (objs (update_positions_from i h rs) r) = effect_id (objs h r)"
  by (induction rs arbitrary: i h) simp_all

lemma upf_other:
  "r \<notin> set rs \<Longrightarrow> objs (update_positions_from i h rs) r = objs h r"
  by (induction rs arbitrary: i h) auto

lemma upf_positions:
  "distinct rs \<Longrightarrow>
   map (\<lambda>r. position (objs (update_positions_from i h rs) r)) rs
     = map (\<lambda>k. JInt (int k)) [i..<i + length rs]"
proof (induction rs arbitrary: i h)
  case Nil
  then show ?case by simp
next
  case (Cons r rs)
  then have d: "distinct rs" and n: "r \<notin> set rs" by auto
  have "position (objs (update_positions_from (Suc i) (store_position h r i) rs) r) = JInt (int i)"
    using upf_other[OF n] by simp
  moreover have "map (\<lambda>x. position (objs (update_positions_from (Suc i) (store_position h r i) rs) x)) rs
     = map (\<lambda>k. JInt (int k)) [Suc i..<Suc i + length rs]"
    by (rule Cons.IH[OF d])
  moreover have "[i..<i + length (r # rs)] = i # [Suc i..<Suc i + length rs]"
    using upt_conv_Cons[of i "Suc i + length rs"] by (simp del: upt_Suc)
  ultimately show ?case by (simp del: upt_Suc)
qed

lemma distinct_ids_refs:
  "distinct (map (\<lambda>r. effect_id (objs h r)) rs) \<Longrightarrow> distinct rs"
  by (simp add: distinct_map)

lemma invariant_after_update_positions:
  assumes "distinct (map (\<lambda>r. effect_id (objs h r)) rs)"
  shows "chain_invariant (update_positions h rs) (c\<lparr>effects := rs, modified_at := now\<rparr>)"
  using assms upf_positions[OF distinct_ids_refs[OF assms], of 0 h]
  by (simp add: chain_invariant_def chain_positions_def chain_ids_def update_positions_def)

lemma add_effect_invariant:
  assumes "chain_invariant h c" and "add_effect h now c r = Inr (h', c')"
  shows "chain_invariant h' c'"
proof -
  from assms(2) have nd: "\<not> list_ex (\<lambda>x. x = r \<or> effect_eq h x r) (effects c)"
    and h': "h' = store_position h r (length (effects c))"
    and c': "c' = c\<lparr>effects := effects c @ [r], modified_at := now\<rparr>"
    by (auto simp: add_effect_def split: if_splits)
  from nd have nr: "r \<notin> set (effects c)"
    and nid: "effect_id (objs h r) \<notin> set (chain_ids h c)"
    by (auto simp: list_ex_iff effect_eq_def chain_ids_def)
  have same: "objs h' x = objs h x" if "x \<in> set (effects c)" for x
  proof -
    from that nr have "x \<noteq> r" by auto
    with h' show ?thesis by simp
  qed
  have "chain_positions h' c' = chain_positions h c @ [JInt (int (length (effects c)))]"
    using same h' c' by (simp add: chain_positions_def)
  moreover have "chain_ids h' c' = chain_ids h c @ [effect_id (objs h r)]"
    using h' c' by (simp add: chain_ids_def)
  ultimately show ?thesis
    using assms(1) nid c' by (simp add: chain_invariant_def)
qed

lemma first_index_Some:
  "first_index h eid rs = Some i \<Longrightarrow> i < length rs \<and> effect_id (objs h (rs ! i)) = eid"
proof (induction rs arbitrary: i)
  case Nil
  then show ?case by simp
next
  case (Cons r rs)
  then show ?case by (auto split: if_splits)
qed

lemma first_index_None:
  "first_index h eid rs = None \<longleftrightarrow> eid \<notin> set (map (\<lambda>r. effect_id (objs h r)) rs)"
  by (induction rs) auto

lemma distinct_take_drop:
  "distinct xs \<Longrightarrow> distinct (take i xs @ drop (Suc i) xs)"
proof (induction xs arbitrary: i)
  case Nil
  then show ?case by simp
next
  case (Cons x xs)
  show ?case
  proof (cases i)
    case 0
    with Cons.prems show ?thesis by simp
  next
    case (Suc j)
    from Cons.prems have "x \<notin> set (take j xs)" "x \<notin> set (drop (Suc j) xs)"
      by (auto dest: in_set_takeD in_set_dropD)
    with Cons Suc show ?thesis by simp
  qed
qed

lemma remove_effect_invariant:
  assumes "chain_invariant h c" and "remove_effect h now c eid = (b, h', c')"
  shows "chain_invariant h' c'"
proof (cases "first_index h eid (effects c)")
  case None
  with assms show ?thesis by (simp add: remove_effect_def)
next
  case (Some i)
  let ?rest = "take i (effects c) @ drop (Suc i) (effects c)"
  from assms(1) have "distinct (map (\<lambda>r. effect_id (objs h r)) (effects c))"
    by (simp add: chain_invariant_def chain_ids_def)
  then have "distinct (take i (map (\<lambda>r. effect_id (objs h r)) (effects c))
                       @ drop (Suc i) (map (\<lambda>r. effect_id (objs h r)) (effects c)))"
    by (rule distinct_take_drop)
  then have d: "distinct (map (\<lambda>r. effect_id (objs h r)) ?rest)"
    by (simp add: take_map drop_map)
  from Some assms(2) have "h' = update_positions h ?rest"
    "c' = c\<lparr>effects := ?rest, modified_at := now\<rparr>"
    by (simp_all add: remove_effect_def Let_def)
  with invariant_after_update_positions[OF d] show ?thesis by simp
qed

lemma collect_effects_ids:
  "collect_effects h cur eids = Inr new \<Longrightarrow>
   map (\<lambda>r. effect_id (objs h r)) new = eids \<and> set new \<subseteq> set cur"
proof (induction eids arbitrary: new)
  case Nil
  then show ?case by simp
next
  case (Cons e eids)
  from Cons.prems obtain r rest where f: "find (\<lambda>r. effect_id (objs h r) = e) cur = Some r"
    and c: "collect_effects h cur eids = Inr rest" and n: "new = r # rest"
    by (auto split: option.splits sum.splits)
  from f have "r \<in> set cur \<and> effect_id (objs h r) = e"
    by (auto simp: find_Some_iff)
  with Cons.IH[OF c] n show ?case by simp
qed

lemma collect_effects_total:
  "set eids \<subseteq> set (map (\<lambda>r. effect_id (objs h r)) cur) \<Longrightarrow> \<exists>new. collect_effects h cur eids = Inr new"
proof (induction eids)
  case Nil
  then show ?case by simp
next
  case (Cons e eids)
  then obtain new where n: "collect_effects h cur eids = Inr new" by auto
  from Cons.prems have "e \<in> set (map (\<lambda>r. effect_id (objs h r)) cur)" by simp
  then have "find (\<lambda>r. effect_id (objs h r) = e) cur \<noteq> None"
    by (auto simp: find_None_iff)
  with n show ?case by auto
qed

lemma collect_effects_missing:
  "\<not> set eids \<subseteq> set (map (\<lambda>r. effect_id (objs h r)) cur) \<Longrightarrow>
   \<exists>e. e \<in> set eids \<and> e \<notin> set (map (\<lambda>r. effect_id (objs h r)) cur)
        \<and> collect_effects h cur eids = Inl (EffectIdNotFound e)"
proof (induction eids)
  case Nil
  then show ?case by simp
next
  case (Cons e eids)
  show ?case
  proof (cases "find (\<lambda>r. effect_id (objs h r) = e) cur")
    case None
    then have "e \<notin> set (map (\<lambda>r. effect_id (objs h r)) cur)" by (auto simp: find_None_iff)
    with None show ?thesis by auto
  next
    case (Some r)
    then have "e \<in> set (map (\<lambda>r. effect_id (objs h r)) cur)"
      by (auto simp: find_Some_iff)
    with Cons.prems have "\<not> set eids \<subseteq> set (map (\<lambda>r. effect_id (objs h r)) cur)" by simp
    from Cons.IH[OF this] Some show ?thesis by auto
  qed
qed

lemma reorder_effects_invariant:
  assumes "distinct eids" and "reorder_effects h now c eids = Inr (h', c')"
  shows "chain_invariant h' c' \<and> chain_ids h' c' = eids"
proof -
  from assms(2) obtain new where n: "collect_effects h (effects c) eids = Inr new"
    and h': "h' = update_positions h new" and c': "c' = c\<lparr>effects := new, modified_at := now\<rparr>"
    by (auto simp: reorder_effects_def split: if_splits sum.splits)
  from collect_effects_ids[OF n] have ids: "map (\<lambda>r. effect_id (objs h r)) new = eids" by simp
  with assms(1) have d: "distinct (map (\<lambda>r. effect_id (objs h r)) new)" by simp
  from invariant_after_update_positions[OF d] h' c' have "chain_invariant h' c'" by simp
  moreover have "chain_ids h' c' = eids"
    using ids h' c' by (simp add: chain_ids_def update_positions_def)
  ultimately show ?thesis by simp
qed

lemma reorder_effects_permutation:
  assumes "mset eids = mset (chain_ids h c)" and "distinct (chain_ids h c)"
  shows "\<exists>h' c'. reorder_effects h now c eids = Inr (h', c')
           \<and> chain_ids h' c' = eids \<and> length (effects c') = length (effects c)
           \<and> chain_invariant h' c'"
proof -
  from assms(1) have len: "length eids = length (effects c)"
    by (metis chain_ids_def length_map size_mset)
  from assms(1) have "set eids = set (chain_ids h c)" by (rule mset_eq_setD)
  then obtain new where n: "collect_effects h (effects c) eids = Inr new"
    using collect_effects_total[of eids h "effects c"] by (auto simp: chain_ids_def)
  from assms have d: "distinct eids" by (metis mset_eq_imp_distinct_iff)
  let ?h = "update_positions h new" and ?c = "c\<lparr>effects := new, modified_at := now\<rparr>"
  have r: "reorder_effects h now c eids = Inr (?h, ?c)"
    using len n by (simp add: reorder_effects_def)
  from reorder_effects_invariant[OF d r] have "chain_invariant ?h ?c" "chain_ids ?h ?c = eids" by simp_all
  moreover have "length (effects ?c) = length (effects c)"
    using collect_effects_ids[OF n] len by (metis EffectsChain.select_convs(3) EffectsChain.surjective EffectsChain.update_convs(3,6) length_map)
  ultimately show ?thesis using r by blast
qed

lemma reorder_effects_rejects:
  assumes "length eids \<noteq> length (effects c) \<or> \<not> set eids \<subseteq> set (chain_ids h c)"
  shows "\<exists>err. reorder_effects h now c eids = Inl err"
proof (cases "length eids \<noteq> length (effects c)")
  case True
  then show ?thesis by (simp add: reorder_effects_def)
next
  case False
  with assms have "\<not> set eids \<subseteq> set (map (\<lambda>r. effect_id (objs h r)) (effects c))"
    by (simp add: chain_ids_def)
  from collect_effects_missing[OF this] False show ?thesis
    by (auto simp: reorder_effects_def)
qed

lemma apply_op_invariant:
  assumes "chain_invariant h c" and "reorder_arg_ok op" and "apply_op now (h, c) op = (h', c')"
  shows "chain_invariant h' c'"
proof (cases op)
  case (AddEffect r)
  show ?thesis
  proof (cases "add_effect h now c r")
    case (Inl e)
    with AddEffect assms show ?thesis by simp
  next
    case (Inr s)
    with AddEffect assms(3) have "add_effect h now c r = Inr (h', c')" by simp
    from add_effect_invariant[OF assms(1) this] show ?thesis .
  qed
next
  case (RemoveEffect eid)
  with assms(3) have "remove_effect h now c eid = (fst (remove_effect h now c eid), h', c')"
    by (metis apply_op.simps(2) prod.collapse)
  from remove_effect_invariant[OF assms(1) this] show ?thesis .
next
  case (ReorderEffects eids)
  show ?thesis
  proof (cases "reorder_effects h now c eids")
    case (Inl e)
    with ReorderEffects assms show ?thesis by simp
  next
    case (Inr s)
    with ReorderEffects assms(3) have r: "reorder_effects h now c eids = Inr (h', c')" by simp
    from ReorderEffects assms(2) have "distinct eids" by (simp add: reorder_arg_ok_def)
    from reorder_effects_invariant[OF this r] show ?thesis by simp
  qed
qed

lemma run_ops_invariant:
  assumes "chain_invariant h c" and "list_all reorder_arg_ok ops" and "run_ops now (h, c) ops = (h', c')"
  shows "chain_invariant h' c'"
  using assms
proof (induction ops arbitrary: h c)
  case Nil
  then show ?case by (simp add: run_ops_def)
next
  case (Cons op ops)
  obtain h1 c1 where s: "apply_op now (h, c) op = (h1, c1)" by (cases "apply_op now (h, c) op")
  from Cons.prems(2) have ok: "reorder_arg_ok op" and oks: "list_all reorder_arg_ok ops" by simp_all
  from apply_op_invariant[OF Cons.prems(1) ok s] have i1: "chain_invariant h1 c1" .
  from Cons.prems(3) s have "run_ops now (h1, c1) ops = (h', c')" by (simp add: run_ops_def)
  from Cons.IH[OF i1 oks this] show ?case .
qed

lemma new_chain_invariant:
  "EffectsChain_init new_id now nm = Inr c \<Longrightarrow> chain_invariant h c"
  by (auto simp: EffectsChain_init_def chain_invariant_def chain_positions_def chain_ids_def split: if_splits)

lemma example_objects:
  "AudioEffect_init 10 (Member BOOST) JNull = Inr boost_a"
  "AudioEffect_init 20 (Other (JStr ''DISTORTION'')) (JDict []) = Inr dist_b"
  "EffectsChain_init 1 0 ''Lead'' = Inr lead_chain"
  by (simp_all add: AudioEffect_init_def resolve_kind_def EffectType_call_def default_parameters_def
        pdef_def boost_a_def dist_b_def EffectsChain_init_def lead_chain_def)

lemma example_adds:
  "run_ops 0 (two_effects, lead_chain) [AddEffect 0, AddEffect 1] = (lead_heap2, lead_chain2)"
  by (auto simp add: run_ops_def add_effect_def MAX_EFFECTS_def effect_eq_def store_position_def
        two_effects_def lead_chain_def lead_heap2_def lead_chain2_def boost_a_def dist_b_def fun_eq_iff)

text \<open>
  Claim C3 says that \<open>reorder_effects\<close> succeeds on every permutation of the current
  ids (\<open>reorder_effects_permutation\<close> above) and fails, leaving the chain unchanged,
  on every id list whose multiset differs from the current membership. The length check
  and the search reject a list of another length or with an unknown id
  (\<open>reorder_effects_rejects\<close>), but not a list of the right length that repeats an id:
  on the chain of the effects 10 and 20 the request \<open>[10, 10]\<close> is accepted; the chain
  then lists the Boost object twice and has lost the Distortion effect.
\<close>

theorem C3_reorder_accepts_duplicated_id:
  "chain_invariant lead_heap2 lead_chain2
   \<and> chain_ids lead_heap2 lead_chain2 = [10, 20]
   \<and> reorder_effects lead_heap2 5 lead_chain2 [10, 10]
       = Inr (update_positions lead_heap2 [0, 0], lead_chain2\<lparr>effects := [0, 0], modified_at := 5\<rparr>)"
  by (simp add: chain_invariant_def chain_ids_def chain_positions_def reorder_effects_def
        lead_heap2_def lead_chain2_def lead_chain_def boost_a_def dist_b_def)

text \<open>
  Claim C2 says that after any sequence of \<open>add_effect\<close>, \<open>remove_effect\<close> and
  \<open>reorder_effects\<close> every effect has \<open>position\<close> equal to its index and no two
  effects share an id. The invariant is kept by every operation as long as no reorder
  request repeats an id (\<open>run_ops_invariant\<close> above). Starting from the empty chain,
  adding the two effects and reordering with \<open>[10, 10]\<close> breaks it: both entries are
  the Boost object, whose position is 1 at index 0, and the two entries share the id 10.
\<close>

theorem C2_invariant_broken_by_reorder:
  "(case run_ops 0 (two_effects, lead_chain) [AddEffect 0, AddEffect 1, ReorderEffects [10, 10]] of
      (h, c) \<Rightarrow> effects c = [0, 0] \<and> chain_ids h c = [10, 10]
                \<and> chain_positions h c = [JInt 1, JInt 1] \<and> \<not> chain_invariant h c)"
  by (simp add: run_ops_def add_effect_def MAX_EFFECTS_def effect_eq_def store_position_def
        reorder_effects_def update_positions_def chain_invariant_def chain_ids_def chain_positions_def
        two_effects_def lead_chain_def boost_a_def dist_b_def)

section \<open>Chains read from dictionaries (C10)\<close>

lemma add_effect_checks:
  "length (effects c) \<ge> MAX_EFFECTS \<Longrightarrow> add_effect h now c r = Inl MaxEffects"
  "length (effects c) < MAX_EFFECTS \<Longrightarrow> effect_id (objs h r) \<in> set (chain_ids h c)
     \<Longrightarrow> add_effect h now c r = Inl DuplicateEffect"
  by (auto simp: add_effect_def chain_ids_def list_ex_iff effect_eq_def)

lemma shared_descriptor_effect:
  "uuid_parse lib s = Some u \<Longrightarrow>
   AudioEffect_from_dict lib new_id (shared_descriptor s)
     = Inr \<lparr>effect_id = u, effect_type = BOOST, bypassed = JBool False, position = JInt 5,
            preset_name = JNull, parameters = default_parameters BOOST\<rparr>"
  by (simp add: AudioEffect_from_dict_def shared_descriptor_def dict_item_def dict_get_def
        EffectType_call_def AudioEffect_init_def resolve_kind_def)

lemma append_effects_length:
  "append_effects lib uuid4 k h c ds = Inr (h', c') \<Longrightarrow>
   length (effects c') = length (effects c) + length ds"
proof (induction ds arbitrary: k h c)
  case Nil
  then show ?case by simp
next
  case (Cons d ds)
  from Cons.prems obtain e where e: "AudioEffect_from_dict lib (uuid4 k) d = Inr e"
    by (auto split: sum.splits)
  obtain r h1 where n: "new_obj h e = (r, h1)" by (cases "new_obj h e")
  from Cons.prems e n have "append_effects lib uuid4 (Suc k) h1 (c\<lparr>effects := effects c @ [r]\<rparr>) ds = Inr (h', c')"
    by simp
  from Cons.IH[OF this] show ?case by simp
qed

lemma new_obj_simps:
  "fst (new_obj h e) = next_ref h"
  "next_ref (snd (new_obj h e)) = Suc (next_ref h)"
  "objs (snd (new_obj h e)) (next_ref h) = e"
  "r \<noteq> next_ref h \<Longrightarrow> objs (snd (new_obj h e)) r = objs h r"
  by (simp_all add: new_obj_def)

lemma append_effects_result:
  assumes "append_effects lib uuid4 k h c ds = Inr (h', c')"
  shows "effects c' = effects c @ map (\<lambda>i. next_ref h + i) [0..<length ds]
         \<and> c' = c\<lparr>effects := effects c'\<rparr>
         \<and> next_ref h' = next_ref h + length ds
         \<and> (\<forall>r<next_ref h. objs h' r = objs h r)
         \<and> (\<forall>i<length ds. AudioEffect_from_dict lib (uuid4 (k + i)) (ds ! i)
                               = Inr (objs h' (next_ref h + i)))"
  using assms
proof (induction ds arbitrary: k h c)
  case Nil
  then show ?case by simp
next
  case (Cons d ds)
  from Cons.prems obtain e where e: "AudioEffect_from_dict lib (uuid4 k) d = Inr e"
    by (auto split: sum.splits)
  let ?h1 = "snd (new_obj h e)" and ?c1 = "c\<lparr>effects := effects c @ [next_ref h]\<rparr>"
  have n: "new_obj h e = (next_ref h, ?h1)" by (simp add: new_obj_def)
  from Cons.prems e have rec: "append_effects lib uuid4 (Suc k) ?h1 ?c1 ds = Inr (h', c')"
    by (simp add: case_prod_beta new_obj_simps)
  note ih = Cons.IH[OF rec]
  have nr: "next_ref ?h1 = Suc (next_ref h)" by (simp add: new_obj_simps)
  from ih nr have old: "\<forall>r<Suc (next_ref h). objs h' r = objs ?h1 r" by simp
  have 1: "effects c' = effects c @ map (\<lambda>i. next_ref h + i) [0..<length (d # ds)]"
  proof -
    have "map (\<lambda>i. next_ref h + i) [0..<Suc (length ds)]
            = next_ref h # map (\<lambda>i. Suc (next_ref h) + i) [0..<length ds]"
      by (simp add: upt_conv_Cons map_Suc_upt[symmetric] del: upt_Suc)
    with ih nr show ?thesis by simp
  qed
  have 2: "c' = c\<lparr>effects := effects c'\<rparr>"
    using ih by (metis EffectsChain.update_convs(3) EffectsChain.surjective)
  have 3: "next_ref h' = next_ref h + length (d # ds)" using ih nr by simp
  have 4: "\<forall>r<next_ref h. objs h' r = objs h r"
    using old by (simp add: new_obj_simps)
  have 5: "AudioEffect_from_dict lib (uuid4 (k + i)) ((d # ds) ! i) = Inr (objs h' (next_ref h + i))"
    if "i < length (d # ds)" for i
  proof (cases i)
    case 0
    with old e show ?thesis by (simp add: new_obj_simps)
  next
    case (Suc j)
    with that ih nr show ?thesis by simp
  qed
  from 1 2 3 4 5 show ?case by blast
qed

lemma append_effects_total:
  assumes "\<forall>i<length ds. \<exists>e. AudioEffect_from_dict lib (uuid4 (k + i)) (ds ! i) = Inr e"
  shows "\<exists>h' c'. append_effects lib uuid4 k h c ds = Inr (h', c')"
  using assms
proof (induction ds arbitrary: k h c)
  case Nil
  then show ?case by simp
next
  case (Cons d ds)
  from Cons.prems obtain e where e: "AudioEffect_from_dict lib (uuid4 k) d = Inr e"
    by fastforce
  have "\<forall>i<length ds. \<exists>e. AudioEffect_from_dict lib (uuid4 (Suc k + i)) (ds ! i) = Inr e"
  proof (intro allI impI)
    fix i assume "i < length ds"
    then have "Suc i < length (d # ds)" by simp
    with Cons.prems have "\<exists>e. AudioEffect_from_dict lib (uuid4 (k + Suc i)) ((d # ds) ! Suc i) = Inr e"
      by blast
    then show "\<exists>e. AudioEffect_from_dict lib (uuid4 (Suc k + i)) (ds ! i) = Inr e" by simp
  qed
  from Cons.IH[OF this] e show ?case by (simp add: case_prod_beta)
qed

text \<open>
  Claim C10. \<open>EffectsChain.from_dict\<close> appends each descriptor's effect directly
  (\<open>append_effects_result\<close>: one new object per descriptor, with the id and position
  the descriptor gives), without the capacity and duplicate checks and the position
  assignment of \<open>add_effect\<close> (\<open>add_effect_checks\<close>). So some dictionary gives a chain
  that violates all three chain invariants: for nine descriptors that share an id text
  which \<open>UUID\<close> accepts and all say position 5, it returns a chain of 9 effects (more
  than 8) that all have the same id and the position 5.
\<close>

theorem C10_from_dict_skips_the_checks:
  assumes "uuid_parse lib s = Some u"
  shows "\<exists>h' c. EffectsChain_from_dict lib uuid4 now h (crowded_dict s) = Inr (h', c)
           \<and> length (effects c) = 9 \<and> \<not> length (effects c) \<le> MAX_EFFECTS
           \<and> chain_ids h' c = replicate 9 u \<and> \<not> distinct (chain_ids h' c)
           \<and> chain_positions h' c = replicate 9 (JInt 5)
           \<and> \<not> chain_invariant h' c"
proof -
  let ?e = "\<lparr>effect_id = u, effect_type = BOOST, bypassed = JBool False, position = JInt 5,
             preset_name = JNull, parameters = default_parameters BOOST\<rparr>"
  let ?ds = "replicate 9 (shared_descriptor s)"
  let ?c0 = "\<lparr>chain_id = uuid4 0, chain_name = ''Full'', effects = [], active = JBool False,
              created_at = now, modified_at = now\<rparr>"
  note d = shared_descriptor_effect[OF assms]
  have ds: "[shared_descriptor s, shared_descriptor s, shared_descriptor s,
             shared_descriptor s, shared_descriptor s, shared_descriptor s,
             shared_descriptor s, shared_descriptor s, shared_descriptor s] = ?ds"
    by (simp add: numeral_eq_Suc)
  have fd: "EffectsChain_from_dict lib uuid4 now h (crowded_dict s) = append_effects lib uuid4 1 h ?c0 ?ds"
    unfolding ds[symmetric]
    by (simp add: EffectsChain_from_dict_def crowded_dict_def dict_item_def dict_get_def
          EffectsChain_init_def)
  have "\<forall>i<length ?ds. \<exists>e. AudioEffect_from_dict lib (uuid4 (1 + i)) (?ds ! i) = Inr e"
    using d by simp
  from append_effects_total[OF this] obtain h' c where
    r: "append_effects lib uuid4 1 h ?c0 ?ds = Inr (h', c)" by blast
  note res = append_effects_result[OF r]
  have eff: "effects c = map (\<lambda>i. next_ref h + i) [0..<9]" using res by simp
  have obj: "objs h' (next_ref h + i) = ?e" if "i < 9" for i
  proof -
    from res that have "AudioEffect_from_dict lib (uuid4 (1 + i)) (?ds ! i) = Inr (objs h' (next_ref h + i))"
      by simp
    with that d show ?thesis by simp
  qed
  have ids: "chain_ids h' c = replicate 9 u"
    using obj by (simp add: chain_ids_def eff list_eq_iff_nth_eq)
  have pos: "chain_positions h' c = replicate 9 (JInt 5)"
    using obj by (simp add: chain_positions_def eff list_eq_iff_nth_eq)
  have nd: "\<not> distinct (chain_ids h' c)" unfolding ids by (simp add: numeral_eq_Suc)
  have len: "length (effects c) = 9" by (simp add: eff)
  from fd r len ids pos nd show ?thesis
    by (auto simp: MAX_EFFECTS_def chain_invariant_def)
qed

theorem C10_from_dict_skips_the_checks_witness:
  "uuid_parse stroke_lib ''||'' = Some 2
   \<and> (\<exists>h' c. EffectsChain_from_dict stroke_lib (\<lambda>k. 100 + k) 0 two_effects (crowded_dict ''||'') = Inr (h', c)
          \<and> length (effects c) = 9 \<and> chain_ids h' c = replicate 9 2
          \<and> chain_positions h' c = replicate 9 (JInt 5) \<and> \<not> chain_invariant h' c)"
proof -
  have p: "uuid_parse stroke_lib ''||'' = Some 2" by (simp add: stroke_lib_def strokes_def)
  from C10_from_dict_skips_the_checks[OF p, of "\<lambda>k. 100 + k" 0 two_effects] p show ?thesis by blast
qed

section \<open>Presets and reconstruction (C9, C1)\<close>

lemma check_param_Inr: "check_param pd n v = Inr w \<Longrightarrow> w = coerced pd v"
  by (auto simp: check_param_def coerced_def split: if_splits option.splits)

lemma update_parameters_success:
  assumes "update_parameters e ov = (None, e')"
    and "distinct (map fst ov)"
    and "parameters e = map (\<lambda>(m, pd). (m, F m pd)) (PARAMETER_DEFINITIONS (effect_type e))"
  shows "parameters e' =
           map (\<lambda>(m, pd). (m, case map_of ov m of None \<Rightarrow> F m pd | Some v \<Rightarrow> coerced pd v))
               (PARAMETER_DEFINITIONS (effect_type e))"
  using assms
proof (induction ov arbitrary: e F)
  case Nil
  then show ?case by simp
next
  case (Cons a ov)
  obtain n v where a: "a = (n, v)" by (cases a)
  let ?ds = "PARAMETER_DEFINITIONS (effect_type e)"
  from Cons.prems(1) a obtain pd w where pd: "map_of ?ds n = Some pd"
    and w: "check_param pd n v = Inr w"
    and rest: "update_parameters (e\<lparr>parameters := AList.update n w (parameters e)\<rparr>) ov = (None, e')"
    by (auto split: option.splits sum.splits)
  have wc: "w = coerced pd v" using w by (rule check_param_Inr)
  have nin: "n \<in> fst ` set ?ds" using pd by (metis map_of_eq_None_iff option.distinct(1))
  let ?F = "\<lambda>m pd'. if m = n then w else F m pd'"
  let ?e1 = "e\<lparr>parameters := AList.update n w (parameters e)\<rparr>"
  have p1: "parameters ?e1 = map (\<lambda>(m, pd). (m, ?F m pd)) (PARAMETER_DEFINITIONS (effect_type ?e1))"
    using update_present[OF distinct_schema nin, of w F] Cons.prems(3) by simp
  have d1: "distinct (map fst ov)" and nov: "n \<notin> fst ` set ov" using Cons.prems(2) a by auto
  have ih: "parameters e' =
      map (\<lambda>(m, pd). (m, case map_of ov m of None \<Rightarrow> ?F m pd | Some v \<Rightarrow> coerced pd v)) ?ds"
    using Cons.IH[OF rest d1 p1] by simp
  have mo: "map_of ov n = None" using nov by (simp add: map_of_eq_None_iff)
  have "map (\<lambda>(m, pd). (m, case map_of ov m of None \<Rightarrow> ?F m pd | Some v \<Rightarrow> coerced pd v)) ?ds
       = map (\<lambda>(m, pd). (m, case map_of (a # ov) m of None \<Rightarrow> F m pd | Some v \<Rightarrow> coerced pd v)) ?ds"
  proof (rule map_cong[OF refl])
    fix x assume x: "x \<in> set ?ds"
    obtain m pd' where xm: "x = (m, pd')" by (cases x)
    have "m = n \<Longrightarrow> pd' = pd" using x xm pd distinct_schema[of "effect_type e"]
      by (metis map_of_is_SomeI option.inject)
    then show "(case x of (m, pd) \<Rightarrow> (m, case map_of ov m of None \<Rightarrow> ?F m pd | Some v \<Rightarrow> coerced pd v))
       = (case x of (m, pd) \<Rightarrow> (m, case map_of (a # ov) m of None \<Rightarrow> F m pd | Some v \<Rightarrow> coerced pd v))"
      using xm a mo wc by auto
  qed
  with ih show ?case by simp
qed

lemma AudioEffect_init_Member:
  assumes "AudioEffect_init new_id (Member t) p = Inr e"
    and "distinct (map fst (override_of p))"
  shows "effect_id e = new_id \<and> effect_type e = t \<and> bypassed e = JBool False
         \<and> preset_name e = JNull \<and> parameters e = expected_parameters t (override_of p)"
proof -
  let ?self = "\<lparr>effect_id = new_id, effect_type = t, bypassed = JBool False,
                 position = JInt 0, preset_name = JNull,
                 parameters = default_parameters t\<rparr>"
  have dflt: "expected_parameters t [] = default_parameters t"
    by (simp add: expected_parameters_def default_parameters_def)
  show ?thesis
  proof (cases "py_truthy p")
    case False
    with assms(1) have e: "e = ?self" by (simp add: AudioEffect_init_def resolve_kind_def)
    from False have "override_of p = []" by (cases p) (simp_all add: override_of_def)
    with e dflt show ?thesis by simp
  next
    case True
    with assms(1) obtain ov where p: "p = JDict ov"
      by (cases p) (simp_all add: AudioEffect_init_def resolve_kind_def)
    with True assms(1) have u: "update_parameters ?self ov = (None, e)"
      by (auto simp: AudioEffect_init_def resolve_kind_def split: prod.splits option.splits)
    have dp: "parameters ?self = map (\<lambda>(m, pd). (m, pd_default pd)) (PARAMETER_DEFINITIONS (effect_type ?self))"
      by (simp add: default_parameters_def)
    from assms(2) p have d: "distinct (map fst ov)" by (simp add: override_of_def)
    from update_parameters_success[OF u d, of "\<lambda>m pd. pd_default pd"] dp
    have "parameters e = expected_parameters t ov" by (simp add: expected_parameters_def)
    moreover from update_parameters_frame[OF u] have "e = ?self\<lparr>parameters := parameters e\<rparr>" .
    then have "effect_id e = new_id \<and> effect_type e = t \<and> bypassed e = JBool False \<and> preset_name e = JNull"
      by (metis AudioEffect.select_convs(1,2,3,5) AudioEffect.surjective AudioEffect.update_convs(6))
    ultimately show ?thesis using p by (simp add: override_of_def)
  qed
qed

lemma EffectType_call_Inr: "EffectType_call tv = Inr t \<Longrightarrow> tv = JStr (EffectType_value t)"
  by (auto simp: EffectType_call_def split: if_splits)

lemma wf_dict_get:
  "list_all (\<lambda>kv. wf_json (snd kv)) kv \<Longrightarrow> wf_json dflt \<Longrightarrow> wf_json (dict_get kv k dflt)"
  by (auto simp: dict_get_def list_all_iff split: option.splits dest!: map_of_SomeD)

lemma effect_of_config_rebuilt:
  assumes "effect_of_config new_id d = Inr e" and "wf_json d"
  shows "rebuilt_from (e\<lparr>position := JInt (int i)\<rparr>) i d \<and> effect_id e = new_id"
proof -
  from assms(1) obtain kv where d: "d = JDict kv" by (cases d) (simp_all add: effect_of_config_def)
  from assms(1) d obtain tv t e0 where tv: "map_of kv ''type'' = Some tv"
    and t: "EffectType_call tv = Inr t"
    and e0: "AudioEffect_init new_id (Member t) (dict_get kv ''parameters'' (JDict [])) = Inr e0"
    and e: "e = (case map_of kv ''preset_name'' of None \<Rightarrow> set_bypassed e0 (dict_get kv ''bypassed'' (JBool False))
                 | Some n \<Rightarrow> set_preset_name (set_bypassed e0 (dict_get kv ''bypassed'' (JBool False))) n)"
    by (auto simp: effect_of_config_def dict_item_def Let_def split: option.splits sum.splits)
  from assms(2) d have "wf_json (dict_get kv ''parameters'' (JDict []))"
    by (intro wf_dict_get) simp_all
  then have dist: "distinct (map fst (override_of (dict_get kv ''parameters'' (JDict []))))"
    by (cases "dict_get kv ''parameters'' (JDict [])") (simp_all add: override_of_def)
  note i = AudioEffect_init_Member[OF e0 dist]
  have "effect_type e = t \<and> bypassed e = dict_get kv ''bypassed'' (JBool False)
        \<and> parameters e = expected_parameters t (descriptor_parameters kv) \<and> effect_id e = new_id"
    using i e by (auto simp: set_bypassed_def set_preset_name_def descriptor_parameters_def
                     override_of_def split: option.splits)
  with tv EffectType_call_Inr[OF t] d show ?thesis by (simp add: rebuilt_from_def)
qed


lemma add_effect_Inr:
  "add_effect h now c r = Inr (h', c') \<Longrightarrow>
   h' = store_position h r (length (effects c))
   \<and> c' = c\<lparr>effects := effects c @ [r], modified_at := now\<rparr>"
  by (auto simp: add_effect_def split: if_splits)

lemma add_configured_effects_result:
  assumes "add_configured_effects uuid4 now k h c ds = Inr (h', c')"
    and "\<forall>r \<in> set (effects c). r < next_ref h"
  shows "effects c' = effects c @ map (\<lambda>i. next_ref h + i) [0..<length ds]
         \<and> chain_name c' = chain_name c \<and> chain_id c' = chain_id c
         \<and> next_ref h' = next_ref h + length ds
         \<and> (\<forall>r<next_ref h. objs h' r = objs h r)
         \<and> (\<forall>i<length ds. \<exists>e. effect_of_config (uuid4 (k + i)) (ds ! i) = Inr e
                \<and> objs h' (next_ref h + i) = e\<lparr>position := JInt (int (length (effects c) + i))\<rparr>)"
  using assms
proof (induction ds arbitrary: k h c)
  case Nil
  then show ?case by simp
next
  case (Cons d ds)
  from Cons.prems(1) obtain e where e: "effect_of_config (uuid4 k) d = Inr e"
    by (auto split: sum.splits)
  let ?r = "next_ref h"
  let ?h1 = "snd (new_obj h e)"
  from Cons.prems(1) e obtain h2 c2 where a: "add_effect ?h1 now c ?r = Inr (h2, c2)"
    and rec: "add_configured_effects uuid4 now (Suc k) h2 c2 ds = Inr (h', c')"
    by (auto simp: case_prod_beta new_obj_simps split: sum.splits)
  from add_effect_Inr[OF a] have h2: "h2 = store_position ?h1 ?r (length (effects c))"
    and c2: "c2 = c\<lparr>effects := effects c @ [?r], modified_at := now\<rparr>" by simp_all
  have nr: "next_ref h2 = Suc ?r" by (simp add: h2 store_position_def new_obj_simps)
  have fresh: "\<forall>r \<in> set (effects c2). r < next_ref h2"
    using Cons.prems(2) nr c2 by auto
  note ih = Cons.IH[OF rec fresh]
  have o2: "objs h2 ?r = e\<lparr>position := JInt (int (length (effects c)))\<rparr>"
    by (simp add: h2 store_position_def new_obj_simps)
  have old2: "\<forall>r<?r. objs h2 r = objs h r"
    by (simp add: h2 store_position_def new_obj_simps)
  have 1: "effects c' = effects c @ map (\<lambda>i. ?r + i) [0..<length (d # ds)]"
  proof -
    have "map (\<lambda>i. ?r + i) [0..<Suc (length ds)]
            = ?r # map (\<lambda>i. Suc ?r + i) [0..<length ds]"
      by (simp add: upt_conv_Cons map_Suc_upt[symmetric] del: upt_Suc)
    with ih nr c2 show ?thesis by simp
  qed
  have 2: "chain_name c' = chain_name c \<and> chain_id c' = chain_id c" using ih c2 by simp
  have 3: "next_ref h' = ?r + length (d # ds)" using ih nr by simp
  have 4: "\<forall>r<?r. objs h' r = objs h r" using ih nr old2 by simp
  have 5: "\<exists>e. effect_of_config (uuid4 (k + i)) ((d # ds) ! i) = Inr e
                \<and> objs h' (?r + i) = e\<lparr>position := JInt (int (length (effects c) + i))\<rparr>"
    if "i < length (d # ds)" for i
  proof (cases i)
    case 0
    from ih nr have "objs h' ?r = objs h2 ?r" by simp
    with 0 e o2 show ?thesis by simp
  next
    case (Suc j)
    with that have "j < length ds" by simp
    with ih obtain e' where "effect_of_config (uuid4 (Suc k + j)) (ds ! j) = Inr e'"
      "objs h' (next_ref h2 + j) = e'\<lparr>position := JInt (int (length (effects c2) + j))\<rparr>"
      by blast
    with Suc nr c2 show ?thesis by simp
  qed
  from 1 2 3 4 5 show ?case by blast
qed

lemma py_iter_wf: "py_iter v = Inr ds \<Longrightarrow> wf_json v \<Longrightarrow> list_all wf_json ds"
  by (cases v) (auto simp: list_all_iff)

lemma as_str_list_map: "as_str_list (map JStr ts) = Inr ts"
  by (induction ts) simp_all

lemma as_opt_str_json: "as_opt_str (opt_str_json x) = Inr x"
  by (cases x) simp_all

lemma from_json_to_json:
  assumes "stdlib_contract lib" and "preset_valid p"
  shows "from_json lib new_id now (to_json lib p) = Inr p"
proof -
  let ?d = "[(''id'', JStr (uuid_str lib (preset_id p))),
            (''name'', JStr (name p)),
            (''description'', opt_str_json (description p)),
            (''effects_chain_config'', JDict (effects_chain_config p)),
            (''created_at'', JStr (isoformat lib (preset_created_at p))),
            (''modified_at'', JStr (isoformat lib (preset_modified_at p))),
            (''tags'', JList (map JStr (tags p))),
            (''author'', opt_str_json (author p)),
            (''version'', JStr (version p))]"
  have args: "preset_args_of ?d = Inr \<lparr>arg_name = name p, arg_config = effects_chain_config p,
       arg_description = description p, arg_tags = Some (tags p), arg_author = author p,
       arg_version = version p\<rparr>"
    by (simp add: preset_args_of_def dict_item_def dict_get_def as_opt_str_json as_str_list_map)
  let ?p0 = "\<lparr>preset_id = new_id, name = name p, description = description p,
              effects_chain_config = effects_chain_config p,
              preset_created_at = now, preset_modified_at = now, tags = tags p,
              author = author p, version = version p\<rparr>"
  have init: "Preset_init new_id now (name p) (effects_chain_config p) (description p)
                (Some (tags p)) (author p) (version p) = Inr ?p0"
    using assms(2) by (auto simp: Preset_init_def preset_valid_def split: option.splits)
  have u: "uuid_parse lib (uuid_str lib (preset_id p)) = Some (preset_id p)"
    and c: "fromisoformat lib (isoformat lib (preset_created_at p)) = Some (preset_created_at p)"
    and m: "fromisoformat lib (isoformat lib (preset_modified_at p)) = Some (preset_modified_at p)"
    using assms(1) by (simp_all add: stdlib_contract_def)
  have "Preset_from_dict lib new_id now (JDict ?d) = Inr p"
    unfolding Preset_from_dict_def json.case args sum.case
    by (simp add: init u c m)
  then show ?thesis by (simp add: from_json_def to_json_def Preset_to_dict_def)
qed

lemma Preset_init_valid: "Preset_init new_id now nm cfg descr tgs auth ver = Inr p \<Longrightarrow> preset_valid p"
  by (auto simp: Preset_init_def preset_valid_def Suc_le_eq split: if_splits option.splits)

lemma Preset_update_valid:
  "preset_valid p \<Longrightarrow> Preset_update now p nm descr tgs cfg = (r, p') \<Longrightarrow> preset_valid p'"
  by (auto simp: Preset_update_def preset_valid_def Let_def Suc_le_eq split: if_splits option.splits)

lemma to_effects_chain_rebuilt:
  assumes "to_effects_chain uuid4 now h p = Inr (h', c)"
    and "wf_json (JDict (effects_chain_config p))"
  shows "\<exists>descs. py_iter (dict_get (effects_chain_config p) ''effects'' (JList [])) = Inr descs
           \<and> chain_rebuilt_from h' c descs"
proof -
  from assms(1) obtain c0 ds where c0: "EffectsChain_init (uuid4 0) now (name p) = Inr c0"
    and it: "py_iter (dict_get (effects_chain_config p) ''effects'' (JList [])) = Inr ds"
    and l: "add_configured_effects uuid4 now 1 h c0 ds = Inr (h', c)"
    by (auto simp: to_effects_chain_def split: sum.splits)
  from c0 have e0: "effects c0 = []" by (auto simp: EffectsChain_init_def split: if_splits)
  from assms(2) have "wf_json (dict_get (effects_chain_config p) ''effects'' (JList []))"
    by (intro wf_dict_get) simp_all
  from py_iter_wf[OF it this] have wfs: "list_all wf_json ds" .
  from add_configured_effects_result[OF l] e0
  have eff: "effects c = map (\<lambda>i. next_ref h + i) [0..<length ds]"
    and objs: "\<forall>i<length ds. \<exists>e. effect_of_config (uuid4 (1 + i)) (ds ! i) = Inr e
                \<and> objs h' (next_ref h + i) = e\<lparr>position := JInt (int i)\<rparr>"
    by simp_all
  have "rebuilt_from (objs h' (effects c ! i)) i (ds ! i)" if "i < length ds" for i
  proof -
    from objs that obtain e where e: "effect_of_config (uuid4 (1 + i)) (ds ! i) = Inr e"
      and o: "objs h' (next_ref h + i) = e\<lparr>position := JInt (int i)\<rparr>" by blast
    from wfs that have "wf_json (ds ! i)" by (simp add: list_all_length)
    from effect_of_config_rebuilt[OF e this, of i] o eff that show ?thesis by simp
  qed
  then have "chain_rebuilt_from h' c ds"
    by (simp add: chain_rebuilt_from_def eff list_all_iff)
  with it show ?thesis by blast
qed

lemma stroke_lib_contract: "stdlib_contract stroke_lib"
  by (simp add: stdlib_contract_def stroke_lib_def strokes_def list_all_iff)

lemma my_lead_ok: "preset_valid my_lead" "wf_json (JDict (effects_chain_config my_lead))"
  by (simp_all add: my_lead_def preset_valid_def tag_ok_def tag_char_def)

lemma hot_preset_ok: "preset_valid hot_preset" "wf_json (JDict (effects_chain_config hot_preset))"
  by (simp_all add: hot_preset_def preset_valid_def)

lemmas eval_defs = to_effects_chain_def EffectsChain_init_def dict_get_def dict_item_def
  effect_of_config_def EffectType_call_def AudioEffect_init_def resolve_kind_def
  default_parameters_def check_param_def pdef_def in_bool_list_def set_bypassed_def
  set_preset_name_def new_obj_def add_effect_def MAX_EFFECTS_def effect_eq_def store_position_def
  two_effects_def boost_a_def dist_b_def draw_def

lemma hot_preset_fails:
  "to_effects_chain draw 7 two_effects hot_preset = Inl (OutOfRange ''gain_db'')"
  by (simp add: hot_preset_def eval_defs)

lemma my_lead_chain:
  "\<exists>h' c. to_effects_chain draw 7 two_effects my_lead = Inr (h', c)
      \<and> effects c = [2, 3]
      \<and> parameters (objs h' 2) = [(''gain_db'', JFloat 6), (''tone'', JFloat 0.5)]
      \<and> parameters (objs h' 3) = [(''delay_seconds'', JFloat 0.25), (''feedback'', JFloat 0.3),
                                   (''mix'', JFloat 0.3), (''tempo_sync'', JBool True)]"
  by (simp add: my_lead_def eval_defs)

text \<open>
  Claim C9. Whenever \<open>to_effects_chain\<close> succeeds, the chain is named after the preset
  itself, whatever chain name \<open>effects_chain_config\<close> holds.
\<close>

theorem C9_chain_named_after_preset:
  assumes "to_effects_chain uuid4 now h self = Inr (h', c)"
  shows "chain_name c = name self"
proof -
  from assms obtain c0 ds where c0: "EffectsChain_init (uuid4 0) now (name self) = Inr c0"
    and l: "add_configured_effects uuid4 now 1 h c0 ds = Inr (h', c)"
    by (auto simp: to_effects_chain_def split: sum.splits)
  from c0 have n: "chain_name c0 = name self" and e: "effects c0 = []"
    by (auto simp: EffectsChain_init_def split: if_splits)
  from add_configured_effects_result[OF l] e n show ?thesis by simp
qed

theorem C9_chain_named_after_preset_witness:
  "dict_get (effects_chain_config my_lead) ''name'' JNull = JStr ''Lead''
   \<and> (\<exists>h' c. to_effects_chain draw 7 two_effects my_lead = Inr (h', c)
          \<and> chain_name c = ''My Lead'')"
proof -
  from my_lead_chain obtain h' c where
    r: "to_effects_chain draw 7 two_effects my_lead = Inr (h', c)" by blast
  from C9_chain_named_after_preset[OF r] have "chain_name c = ''My Lead''" by (simp add: my_lead_def)
  with r show ?thesis by (auto simp: my_lead_def dict_get_def)
qed

lemma update_parameters_None_valid:
  "update_parameters e ov = (None, e') \<Longrightarrow> entries_valid (effect_type e) ov"
proof (induction ov arbitrary: e)
  case Nil
  then show ?case by (simp add: entries_valid_def)
next
  case (Cons a ov)
  obtain k v where a: "a = (k, v)" by (cases a)
  from Cons.prems a obtain w where w: "stored_value (effect_type e) k v = Some w"
    and rest: "update_parameters (e\<lparr>parameters := AList.update k w (parameters e)\<rparr>) ov = (None, e')"
    by (auto simp: stored_value_def split: option.splits sum.splits)
  from w have "key_valid (effect_type e) k v"
    using key_error_stored key_error_valid by (metis option.distinct(1))
  with Cons.IH[OF rest] a show ?case by (simp add: entries_valid_def)
qed

lemma AudioEffect_init_Member_iff:
  "(\<exists>e. AudioEffect_init new_id (Member t) p = Inr e) \<longleftrightarrow> params_valid t p"
proof (cases p)
  case (JDict ov)
  let ?self = "\<lparr>effect_id = new_id, effect_type = t, bypassed = JBool False,
                 position = JInt 0, preset_name = JNull,
                 parameters = default_parameters t\<rparr>"
  show ?thesis
  proof (cases "ov = []")
    case True
    with JDict show ?thesis
      by (simp add: AudioEffect_init_def resolve_kind_def params_valid_def entries_valid_def)
  next
    case False
    obtain r e' where u: "update_parameters ?self ov = (r, e')" by (cases "update_parameters ?self ov")
    show ?thesis
    proof (cases r)
      case None
      with u update_parameters_None_valid[of ?self ov e'] False JDict show ?thesis
        by (simp add: AudioEffect_init_def resolve_kind_def params_valid_def)
    next
      case (Some err)
      have "\<not> entries_valid t ov"
      proof
        assume "entries_valid t ov"
        then have "entries_valid (effect_type ?self) ov" by simp
        from update_parameters_prefix[OF this, of "[]"] u Some show False by simp
      qed
      with u Some False JDict show ?thesis
        by (simp add: AudioEffect_init_def resolve_kind_def params_valid_def)
    qed
  qed
qed (simp_all add: AudioEffect_init_def resolve_kind_def params_valid_def Let_def)

lemma EffectType_call_iff: "EffectType_call tv = Inr t \<longleftrightarrow> tv = JStr (EffectType_value t)"
  by (cases t) (auto simp: EffectType_call_def)

lemma effect_of_config_iff:
  "(\<exists>e. effect_of_config new_id d = Inr e) \<longleftrightarrow> descriptor_valid d"
proof (cases d)
  case (JDict kv)
  show ?thesis
  proof (cases "map_of kv ''type''")
    case None
    with JDict show ?thesis by (simp add: effect_of_config_def descriptor_valid_def dict_item_def)
  next
    case (Some tv)
    show ?thesis
    proof (cases "EffectType_call tv")
      case (Inl err)
      then have "\<And>t. tv \<noteq> JStr (EffectType_value t)" using EffectType_call_iff[of tv] by auto
      with Inl Some JDict show ?thesis
        by (simp add: effect_of_config_def descriptor_valid_def dict_item_def)
    next
      case (Inr t)
      then have tv: "tv = JStr (EffectType_value t)" by (simp add: EffectType_call_iff)
      have lx: "list_ex (\<lambda>t'. tv = JStr (EffectType_value t') \<and> params_valid t' q)
                  [BOOST, DISTORTION, DELAY, REVERB] \<longleftrightarrow> params_valid t q" for q
        using tv by (cases t) auto
      have "(\<exists>e. effect_of_config new_id d = Inr e)
            \<longleftrightarrow> (\<exists>e. AudioEffect_init new_id (Member t) (dict_get kv ''parameters'' (JDict [])) = Inr e)"
        using JDict Some Inr
        by (auto simp: effect_of_config_def dict_item_def Let_def split: sum.splits option.splits)
      with lx JDict Some show ?thesis
        by (simp add: descriptor_valid_def AudioEffect_init_Member_iff)
    qed
  qed
qed (simp_all add: effect_of_config_def descriptor_valid_def)

lemma effect_of_config_id:
  assumes "effect_of_config new_id d = Inr e"
  shows "effect_id e = new_id"
proof -
  from assms obtain kv where d: "d = JDict kv" by (cases d) (simp_all add: effect_of_config_def)
  from assms d obtain t e0 where
    e0: "AudioEffect_init new_id (Member t) (dict_get kv ''parameters'' (JDict [])) = Inr e0"
    and e: "effect_id e = effect_id e0"
    by (auto simp: effect_of_config_def dict_item_def Let_def set_bypassed_def set_preset_name_def
             split: option.splits sum.splits)
  let ?self = "\<lparr>effect_id = new_id, effect_type = t, bypassed = JBool False,
                 position = JInt 0, preset_name = JNull,
                 parameters = default_parameters t\<rparr>"
  from e0 have "e0 = ?self \<or> (\<exists>ov. update_parameters ?self ov = (None, e0))"
    by (auto simp: AudioEffect_init_def resolve_kind_def Let_def
             split: if_splits json.splits prod.splits option.splits)
  then have "effect_id e0 = new_id"
  proof
    assume "e0 = ?self" then show ?thesis by simp
  next
    assume "\<exists>ov. update_parameters ?self ov = (None, e0)"
    then obtain ov where "update_parameters ?self ov = (None, e0)" ..
    from update_parameters_frame[OF this] have "e0 = ?self\<lparr>parameters := parameters e0\<rparr>" .
    then show ?thesis
      by (metis AudioEffect.select_convs(1) AudioEffect.surjective AudioEffect.update_convs(6))
  qed
  with e show ?thesis by simp
qed

lemma add_configured_effects_bound:
  "add_configured_effects uuid4 now k h c ds = Inr (h', c') \<Longrightarrow>
   length (effects c) \<le> MAX_EFFECTS \<Longrightarrow> length (effects c') \<le> MAX_EFFECTS"
proof (induction ds arbitrary: k h c)
  case Nil
  then show ?case by simp
next
  case (Cons d ds)
  from Cons.prems(1) obtain e where e: "effect_of_config (uuid4 k) d = Inr e"
    by (auto split: sum.splits)
  from Cons.prems(1) e obtain h2 c2 where
    a: "add_effect (snd (new_obj h e)) now c (next_ref h) = Inr (h2, c2)"
    and rec: "add_configured_effects uuid4 now (Suc k) h2 c2 ds = Inr (h', c')"
    by (auto simp: case_prod_beta new_obj_simps split: sum.splits)
  from a have "length (effects c2) \<le> MAX_EFFECTS"
    by (auto simp: add_effect_def split: if_splits)
  from Cons.IH[OF rec this] show ?case .
qed

lemma add_configured_effects_total:
  assumes "list_all descriptor_valid ds"
    and "length (effects c) + length ds \<le> MAX_EFFECTS"
    and "\<forall>r \<in> set (effects c). r < next_ref h \<and> effect_id (objs h r) \<notin> uuid4 ` {k..}"
    and "inj uuid4"
  shows "\<exists>h' c'. add_configured_effects uuid4 now k h c ds = Inr (h', c')"
  using assms(1,2,3)
proof (induction ds arbitrary: k h c)
  case Nil
  then show ?case by simp
next
  case (Cons d ds)
  from Cons.prems(1) have dv: "descriptor_valid d" and rest: "list_all descriptor_valid ds" by simp_all
  from dv obtain e where e: "effect_of_config (uuid4 k) d = Inr e"
    using effect_of_config_iff[of "uuid4 k" d] by blast
  have id: "effect_id e = uuid4 k" using e by (rule effect_of_config_id)
  let ?r = "next_ref h"
  let ?h1 = "snd (new_obj h e)"
  let ?h2 = "store_position ?h1 ?r (length (effects c))"
  let ?c2 = "c\<lparr>effects := effects c @ [?r], modified_at := now\<rparr>"
  have nodup: "\<not> list_ex (\<lambda>r. r = ?r \<or> effect_eq ?h1 r ?r) (effects c)"
  proof -
    have "r \<noteq> ?r \<and> \<not> effect_eq ?h1 r ?r" if "r \<in> set (effects c)" for r
    proof -
      from Cons.prems(3) that have lt: "r < ?r" and nid: "effect_id (objs h r) \<notin> uuid4 ` {k..}" by auto
      from nid have "effect_id (objs h r) \<noteq> uuid4 k" by auto
      with lt id show ?thesis by (simp add: effect_eq_def new_obj_simps)
    qed
    then show ?thesis by (auto simp: list_ex_iff)
  qed
  from Cons.prems(2) have len: "\<not> length (effects c) \<ge> MAX_EFFECTS" by simp
  from nodup len have a: "add_effect ?h1 now c ?r = Inr (?h2, ?c2)" by (simp add: add_effect_def)
  have step: "add_configured_effects uuid4 now k h c (d # ds)
              = add_configured_effects uuid4 now (Suc k) ?h2 ?c2 ds"
    using e a by (simp add: case_prod_beta new_obj_simps)
  have l2: "length (effects ?c2) + length ds \<le> MAX_EFFECTS" using Cons.prems(2) by simp
  have inv: "\<forall>r \<in> set (effects ?c2). r < next_ref ?h2 \<and> effect_id (objs ?h2 r) \<notin> uuid4 ` {Suc k..}"
  proof
    fix r assume "r \<in> set (effects ?c2)"
    then consider "r = ?r" | "r \<in> set (effects c)" by auto
    then show "r < next_ref ?h2 \<and> effect_id (objs ?h2 r) \<notin> uuid4 ` {Suc k..}"
    proof cases
      case 1
      have "uuid4 k \<notin> uuid4 ` {Suc k..}" using assms(4) by (fastforce dest: injD)
      with 1 id show ?thesis by (simp add: store_position_def new_obj_simps)
    next
      case 2
      with Cons.prems(3) have lt: "r < ?r" and nid: "effect_id (objs h r) \<notin> uuid4 ` {k..}" by auto
      from nid have "effect_id (objs h r) \<notin> uuid4 ` {Suc k..}" by auto
      with lt show ?thesis by (simp add: store_position_def new_obj_simps)
    qed
  qed
  from Cons.IH[OF rest l2 inv] step show ?case by simp
qed


lemma roundtrip_eq:
  assumes "stdlib_contract lib" and "preset_valid p"
  shows "roundtrip lib new_id t uuid4 now h p = to_effects_chain uuid4 now h p"
  using from_json_to_json[OF assms] by (simp add: roundtrip_def)

lemma to_effects_chain_rebuildable:
  assumes "to_effects_chain uuid4 now h p = Inr (h', c)"
  shows "rebuildable p"
proof -
  from assms obtain c0 ds where c0: "EffectsChain_init (uuid4 0) now (name p) = Inr c0"
    and it: "descriptors p = Inr ds"
    and l: "add_configured_effects uuid4 now 1 h c0 ds = Inr (h', c)"
    by (auto simp: to_effects_chain_def descriptors_def split: sum.splits)
  from c0 have e0: "effects c0 = []" and n: "length (name p) \<le> 50"
    by (auto simp: EffectsChain_init_def split: if_splits)
  from add_configured_effects_result[OF l] e0
  have eff: "effects c = map (\<lambda>i. next_ref h + i) [0..<length ds]"
    and objs: "\<forall>i<length ds. \<exists>e. effect_of_config (uuid4 (1 + i)) (ds ! i) = Inr e"
    by auto
  from add_configured_effects_bound[OF l] e0 have "length (effects c) \<le> MAX_EFFECTS" by simp
  with eff have len: "length ds \<le> MAX_EFFECTS" by simp
  have "descriptor_valid (ds ! i)" if "i < length ds" for i
    using objs that effect_of_config_iff[of "uuid4 (1 + i)" "ds ! i"] by blast
  then have "list_all descriptor_valid ds" by (simp add: list_all_length)
  with n it len show ?thesis by (simp add: rebuildable_def)
qed

lemma rebuildable_to_effects_chain:
  assumes "rebuildable p" and "1 \<le> length (name p)" and "inj uuid4"
  shows "\<exists>h' c. to_effects_chain uuid4 now h p = Inr (h', c)"
proof -
  from assms(1) obtain ds where it: "descriptors p = Inr ds"
    and len: "length ds \<le> MAX_EFFECTS" and va: "list_all descriptor_valid ds"
    and n: "length (name p) \<le> 50"
    by (auto simp: rebuildable_def split: sum.splits)
  let ?c0 = "\<lparr>chain_id = uuid4 0, chain_name = name p, effects = [], active = JBool False,
               created_at = now, modified_at = now\<rparr>"
  from n assms(2) have c0: "EffectsChain_init (uuid4 0) now (name p) = Inr ?c0"
    by (auto simp: EffectsChain_init_def)
  from add_configured_effects_total[OF va _ _ assms(3), of ?c0 h 1 now] len
  obtain h' c where "add_configured_effects uuid4 now 1 h ?c0 ds = Inr (h', c)" by auto
  with c0 it show ?thesis by (simp add: to_effects_chain_def descriptors_def)
qed

text \<open>
  Claim C1, as stated, fails on the code, on presets that the constructor accepts.
  \<open>to_effects_chain\<close> rejects \<open>hot_preset\<close>, whose stored gain is out of range,
  \<open>long_named\<close>, whose name of 51 characters is too long for a chain, and
  \<open>nine_preset\<close>, whose nine entries are more than a chain holds, so no chain is
  produced for them; and for \<open>my_lead\<close>, which stores one of the two Boost
  parameters, the rebuilt effect has both (the default is filled in), so its parameters
  are not exactly the stored ones.
\<close>

theorem C1_exact_roundtrip_counterexample:
  "preset_valid hot_preset
   \<and> to_effects_chain draw 7 two_effects hot_preset = Inl (OutOfRange ''gain_db'')
   \<and> \<not> exact_roundtrip stroke_lib draw 7 two_effects hot_preset
   \<and> preset_valid my_lead
   \<and> \<not> exact_roundtrip stroke_lib draw 7 two_effects my_lead
   \<and> preset_valid long_named
   \<and> to_effects_chain draw 7 two_effects long_named = Inl ChainNameLength
   \<and> \<not> exact_roundtrip stroke_lib draw 7 two_effects long_named
   \<and> preset_valid nine_preset
   \<and> to_effects_chain draw 7 two_effects nine_preset = Inl MaxEffects
   \<and> \<not> exact_roundtrip stroke_lib draw 7 two_effects nine_preset"
proof -
  have lv: "preset_valid long_named"
    by (simp add: long_named_def long_name_def my_lead_def preset_valid_def tag_ok_def tag_char_def)
  have nv: "preset_valid nine_preset"
    by (simp add: nine_preset_def my_lead_def preset_valid_def tag_ok_def tag_char_def)
  have h: "from_json stroke_lib (draw 0) 7 (to_json stroke_lib hot_preset) = Inr hot_preset"
    by (rule from_json_to_json[OF stroke_lib_contract hot_preset_ok(1)])
  have m: "from_json stroke_lib (draw 0) 7 (to_json stroke_lib my_lead) = Inr my_lead"
    by (rule from_json_to_json[OF stroke_lib_contract my_lead_ok(1)])
  have l: "from_json stroke_lib (draw 0) 7 (to_json stroke_lib long_named) = Inr long_named"
    by (rule from_json_to_json[OF stroke_lib_contract lv])
  have n: "from_json stroke_lib (draw 0) 7 (to_json stroke_lib nine_preset) = Inr nine_preset"
    by (rule from_json_to_json[OF stroke_lib_contract nv])
  have lf: "to_effects_chain draw 7 two_effects long_named = Inl ChainNameLength"
    by (simp add: long_named_def long_name_def to_effects_chain_def EffectsChain_init_def)
  have nf: "to_effects_chain draw 7 two_effects nine_preset = Inl MaxEffects"
    by (simp add: nine_preset_def reverb_entry_def my_lead_def eval_defs)
  from my_lead_chain obtain h' c where
    r: "to_effects_chain draw 7 two_effects my_lead = Inr (h', c)"
    and e: "effects c = [2, 3]"
    and p: "parameters (objs h' 2) = [(''gain_db'', JFloat 6), (''tone'', JFloat 0.5)]" by blast
  have "\<not> matches_descriptor (objs h' 2)
           (JDict [(''type'', JStr ''BOOST''), (''parameters'', JDict [(''gain_db'', JFloat 6)]),
                   (''bypassed'', JBool False)])"
    by (simp add: matches_descriptor_def p)
  then have "\<not> exact_roundtrip stroke_lib draw 7 two_effects my_lead"
    using m r e by (simp add: exact_roundtrip_def my_lead_def dict_get_def)
  moreover have "\<not> exact_roundtrip stroke_lib draw 7 two_effects hot_preset"
    using h hot_preset_fails by (simp add: exact_roundtrip_def)
  moreover have "\<not> exact_roundtrip stroke_lib draw 7 two_effects long_named"
    using l lf by (simp add: exact_roundtrip_def)
  moreover have "\<not> exact_roundtrip stroke_lib draw 7 two_effects nine_preset"
    using n nf by (simp add: exact_roundtrip_def)
  ultimately show ?thesis using hot_preset_fails hot_preset_ok(1) my_lead_ok(1) lv nv lf nf by simp
qed

text \<open>
  Claim C1, amended. Take a preset as the constructor and \<open>update\<close> leave it, whose
  configuration is JSON data (every dictionary having each key once), and identifiers
  drawn pairwise distinct. Then \<open>Preset.from_json(P.to_json())\<close> is \<open>P\<close> again, and
  \<open>to_effects_chain\<close> on it yields a chain exactly when the preset can be rebuilt: its
  name has at most 50 characters and \<open>effects_chain_config["effects"]\<close> holds at most
  8 entries, all valid descriptors. The chain then has one effect per entry, in the
  same order: the \<open>i\<close>-th effect has position \<open>i\<close>, the entry's kind, the entry's
  \<open>bypassed\<close> value (\<open>False\<close> when absent), and as parameters the kind's schema
  defaults overridden by the entry's parameters, booleans coerced. For every other
  preset the call raises.
\<close>

theorem C1_roundtrip_rebuilds_chain:
  assumes "stdlib_contract lib" and "preset_valid p"
    and "wf_json (JDict (effects_chain_config p))" and "inj uuid4"
  shows "from_json lib new_id t (to_json lib p) = Inr p
         \<and> (rebuildable p \<longrightarrow>
              (\<exists>h' c ds. roundtrip lib new_id t uuid4 now h p = Inr (h', c)
                  \<and> descriptors p = Inr ds \<and> chain_rebuilt_from h' c ds))
         \<and> (\<not> rebuildable p \<longrightarrow> (\<exists>err. roundtrip lib new_id t uuid4 now h p = Inl err))"
proof (intro conjI impI)
  show "from_json lib new_id t (to_json lib p) = Inr p"
    by (rule from_json_to_json[OF assms(1,2)])
next
  assume rb: "rebuildable p"
  from assms(2) have "1 \<le> length (name p)" by (simp add: preset_valid_def)
  from rebuildable_to_effects_chain[OF rb this assms(4), of now h] obtain h' c where
    r: "to_effects_chain uuid4 now h p = Inr (h', c)" by blast
  from to_effects_chain_rebuilt[OF r assms(3)] obtain ds where
    "descriptors p = Inr ds" "chain_rebuilt_from h' c ds" by (auto simp: descriptors_def)
  with r roundtrip_eq[OF assms(1,2), of new_id t uuid4 now h]
  show "\<exists>h' c ds. roundtrip lib new_id t uuid4 now h p = Inr (h', c)
                  \<and> descriptors p = Inr ds \<and> chain_rebuilt_from h' c ds" by auto
next
  assume nrb: "\<not> rebuildable p"
  show "\<exists>err. roundtrip lib new_id t uuid4 now h p = Inl err"
  proof (cases "to_effects_chain uuid4 now h p")
    case (Inl err)
    with roundtrip_eq[OF assms(1,2), of new_id t uuid4 now h] show ?thesis by simp
  next
    case (Inr hc)
    obtain h' c where "hc = (h', c)" by (cases hc)
    with Inr to_effects_chain_rebuildable[of uuid4 now h p h' c] nrb show ?thesis by simp
  qed
qed

theorem C1_roundtrip_rebuilds_chain_witness:
  "stdlib_contract stroke_lib \<and> inj draw
   \<and> preset_valid my_lead \<and> wf_json (JDict (effects_chain_config my_lead)) \<and> rebuildable my_lead
   \<and> from_json stroke_lib 50 7 (to_json stroke_lib my_lead) = Inr my_lead
   \<and> (\<exists>h' c ds. roundtrip stroke_lib 50 7 draw 7 two_effects my_lead = Inr (h', c)
          \<and> descriptors my_lead = Inr ds \<and> length ds = 2 \<and> chain_rebuilt_from h' c ds)
   \<and> preset_valid hot_preset \<and> wf_json (JDict (effects_chain_config hot_preset))
   \<and> \<not> rebuildable hot_preset
   \<and> (\<exists>err. roundtrip stroke_lib 50 7 draw 7 two_effects hot_preset = Inl err)"
proof -
  have i: "inj draw" by (simp add: inj_def draw_def)
  have rb: "rebuildable my_lead"
    by (simp add: rebuildable_def descriptors_def descriptor_valid_def params_valid_def
          entries_valid_def key_valid_def in_bool_list_def pdef_def dict_get_def
          MAX_EFFECTS_def my_lead_def)
  have nrb: "\<not> rebuildable hot_preset"
    by (simp add: rebuildable_def descriptors_def descriptor_valid_def params_valid_def
          entries_valid_def key_valid_def in_bool_list_def pdef_def dict_get_def
          MAX_EFFECTS_def hot_preset_def)
  note a = C1_roundtrip_rebuilds_chain[OF stroke_lib_contract my_lead_ok i, of 50 7 7 two_effects]
  note b = C1_roundtrip_rebuilds_chain[OF stroke_lib_contract hot_preset_ok i, of 50 7 7 two_effects]
  from a rb obtain h' c ds where
    r: "roundtrip stroke_lib 50 7 draw 7 two_effects my_lead = Inr (h', c)"
    and d: "descriptors my_lead = Inr ds" and cr: "chain_rebuilt_from h' c ds" by blast
  from d have l: "length ds = 2" by (auto simp: descriptors_def my_lead_def dict_get_def)
  from b nrb obtain err where
    f: "roundtrip stroke_lib 50 7 draw 7 two_effects hot_preset = Inl err" by blast
  from a r d l cr f i rb nrb stroke_lib_contract my_lead_ok hot_preset_ok show ?thesis by blast
qed

section \<open>Renaming a chain through the manager (C6)\<close>

lemma update_chain_any_name:
  "map_of (chains m) i = Some c \<Longrightarrow>
   update_chain now m i [(''name'', JStr n)]
     = Inr (m\<lparr>chains := AList.update i (c\<lparr>chain_name := n\<rparr>) (chains m)\<rparr>, c\<lparr>chain_name := n\<rparr>)"
  by (simp add: update_chain_def Let_def)

text \<open>
  Claim C6 says that \<open>update_chain\<close> re-validates the name: a name of length 0 or of
  more than 50 characters fails and leaves the name unchanged. The constructor rejects
  both names, but \<open>update_chain\<close> assigns whatever string it is given
  (\<open>update_chain_any_name\<close>): on the manager as constructed, renaming the default chain
  to the empty name and to a name of 51 characters both return normally, and the chain
  stored in the manager bears the new name.
\<close>

theorem C6_update_chain_does_not_validate:
  "EffectsManager_init 1 0 = Inr default_manager
   \<and> EffectsChain_init 2 5 [] = Inl ChainNameLength
   \<and> EffectsChain_init 2 5 long_name = Inl ChainNameLength
   \<and> (case update_chain 5 default_manager 1 [(''name'', JStr [])] of
         Inl err \<Rightarrow> False
       | Inr (m, c) \<Rightarrow> chain_name c = [] \<and> map_option chain_name (map_of (chains m) 1) = Some [])
   \<and> (case update_chain 5 default_manager 1 [(''name'', JStr long_name)] of
         Inl err \<Rightarrow> False
       | Inr (m, c) \<Rightarrow> chain_name c = long_name \<and> length (chain_name c) = 51
                       \<and> map_option chain_name (map_of (chains m) 1) = Some long_name)"
  by (simp add: EffectsManager_init_def EffectsChain_init_def default_manager_def long_name_def
        update_chain_def Let_def)

section \<open>The preset store (C4)\<close>

lemma save_preset_failure_unchanged:
  "save_preset lib new_id now disk_ok st cfg = (Inl err, st') \<Longrightarrow> st' = st"
  by (auto simp: save_preset_def split: option.splits sum.splits if_splits prod.splits)

lemma create_and_store_result:
  assumes "create_and_store lib new_id now disk_ok st nm cv cfg = Inr (p, st')"
  shows "name p = nm \<and> preset_id p = new_id
         \<and> presets st' = AList.update new_id p (presets st)
         \<and> preset_names st' = AList.update nm new_id (preset_names st)"
  using assms
  by (auto simp: create_and_store_def save_to_file_def Preset_init_def
           split: sum.splits if_splits)

lemma update_fresh: "k \<notin> fst ` set al \<Longrightarrow> AList.update k v al = al @ [(k, v)]"
  by (induction al) auto

lemma store_consistent_parts:
  assumes "store_consistent st"
  shows "distinct (map fst (presets st))" and "distinct (map fst (preset_names st))"
    and "\<And>n i. (n, i) \<in> set (preset_names st) \<Longrightarrow> \<exists>q. map_of (presets st) i = Some q \<and> name q = n"
    and "\<And>i q. (i, q) \<in> set (presets st) \<Longrightarrow> map_of (preset_names st) (name q) = Some i"
proof -
  from assms have la: "list_all (\<lambda>(n, i). case map_of (presets st) i of None \<Rightarrow> False | Some p \<Rightarrow> name p = n)
           (preset_names st)"
    and lb: "list_all (\<lambda>(i, p). map_of (preset_names st) (name p) = Some i) (presets st)"
    and d: "distinct (map fst (presets st))" "distinct (map fst (preset_names st))"
    unfolding store_consistent_def by blast+
  from d show "distinct (map fst (presets st))" and "distinct (map fst (preset_names st))" .
  show "\<exists>q. map_of (presets st) i = Some q \<and> name q = n" if "(n, i) \<in> set (preset_names st)" for n i
  proof -
    from la that have "case map_of (presets st) i of None \<Rightarrow> False | Some p \<Rightarrow> name p = n"
      unfolding list_all_iff by blast
    then show ?thesis by (cases "map_of (presets st) i") simp_all
  qed
  show "map_of (preset_names st) (name q) = Some i" if "(i, q) \<in> set (presets st)" for i q
    using lb that unfolding list_all_iff by blast
qed

lemma save_preset_consistent:
  assumes "store_consistent st" and "new_id \<notin> fst ` set (presets st)"
    and "save_preset lib new_id now disk_ok st cfg = (r, st')"
  shows "store_consistent st'"
proof (cases r)
  case (Inl err)
  with assms(3) save_preset_failure_unchanged have "st' = st" by blast
  with assms(1) show ?thesis by simp
next
  case (Inr p)
  with assms(3) obtain cv nm where nm: "map_of (preset_names st) nm = None"
    and cs: "create_and_store lib new_id now disk_ok st nm cv cfg = Inr (p, st')"
    by (auto simp: save_preset_def split: option.splits sum.splits if_splits prod.splits)
  note res = create_and_store_result[OF cs]
  from nm have nn: "nm \<notin> fst ` set (preset_names st)" by (simp add: map_of_eq_None_iff)
  have P: "presets st' = presets st @ [(new_id, p)]"
    using res assms(2) by (simp add: update_fresh)
  have N: "preset_names st' = preset_names st @ [(nm, new_id)]"
    using res nn by (simp add: update_fresh)
  from res have np: "name p = nm" by simp
  note inv = store_consistent_parts[OF assms(1)]
  note dp = inv(1) and dn = inv(2) and a = inv(3) and b = inv(4)
  have 1: "distinct (map fst (presets st'))" using P dp assms(2) by simp
  have 2: "distinct (map fst (preset_names st'))" using N dn nn by simp
  have 3: "case map_of (presets st') i of None \<Rightarrow> False | Some q \<Rightarrow> name q = n"
    if "(n, i) \<in> set (preset_names st')" for n i
  proof (cases "(n, i) \<in> set (preset_names st)")
    case True
    from a[OF True] obtain q where "map_of (presets st) i = Some q" "name q = n" by blast
    then show ?thesis by (simp add: P map_add_def)
  next
    case False
    with that N have "n = nm" "i = new_id" by simp_all
    moreover have "map_of (presets st) new_id = None" using assms(2) by (simp add: map_of_eq_None_iff)
    ultimately show ?thesis using np by (simp add: P map_add_def)
  qed
  have 4: "map_of (preset_names st') (name q) = Some i" if "(i, q) \<in> set (presets st')" for i q
  proof (cases "(i, q) \<in> set (presets st)")
    case True
    from b[OF True] show ?thesis by (simp add: N map_add_def)
  next
    case False
    with that P have "i = new_id" "q = p" by simp_all
    with np nm show ?thesis by (simp add: N map_add_def)
  qed
  from 1 2 3 4 show ?thesis
    by (auto simp: store_consistent_def list_all_iff)
qed

lemma delete_preset_consistent:
  assumes "store_consistent st" and "delete_preset st pid = (r, st')"
  shows "store_consistent st'"
proof (cases "map_of (presets st) pid")
  case None
  with assms show ?thesis by (simp add: delete_preset_def)
next
  case (Some p)
  note inv = store_consistent_parts[OF assms(1)]
  from Some have mem: "(pid, p) \<in> set (presets st)" by (rule map_of_SomeD)
  from inv(4)[OF mem] have idx: "map_of (preset_names st) (name p) = Some pid" .
  with Some assms(2) have P: "presets st' = AList.delete pid (presets st)"
    and N: "preset_names st' = AList.delete (name p) (preset_names st)"
    by (auto simp: delete_preset_def Let_def)
  have 1: "distinct (map fst (presets st'))" using inv(1) by (simp add: P distinct_delete)
  have 2: "distinct (map fst (preset_names st'))" using inv(2) by (simp add: N distinct_delete)
  have 3: "case map_of (presets st') i of None \<Rightarrow> False | Some q \<Rightarrow> name q = n"
    if "(n, i) \<in> set (preset_names st')" for n i
  proof -
    from that N have m: "(n, i) \<in> set (preset_names st)" and ne: "n \<noteq> name p"
      by (auto simp: AList.delete_eq)
    from inv(3)[OF m] obtain q where q: "map_of (presets st) i = Some q" "name q = n" by blast
    with ne Some have "i \<noteq> pid" by auto
    with q show ?thesis by (simp add: P delete_conv')
  qed
  have 4: "map_of (preset_names st') (name q) = Some i" if "(i, q) \<in> set (presets st')" for i q
  proof -
    from that P have m: "(i, q) \<in> set (presets st)" and ne: "i \<noteq> pid"
      by (auto simp: AList.delete_eq)
    from inv(4)[OF m] have "map_of (preset_names st) (name q) = Some i" .
    with idx ne have "name q \<noteq> name p" by auto
    with \<open>map_of (preset_names st) (name q) = Some i\<close> show ?thesis by (simp add: N delete_conv')
  qed
  from 1 2 3 4 show ?thesis by (auto simp: store_consistent_def list_all_iff)
qed

lemma consistent_names_unique:
  assumes "store_consistent st" and "(i, p) \<in> set (presets st)" and "(j, q) \<in> set (presets st)"
    and "name p = name q"
  shows "i = j"
proof -
  note inv = store_consistent_parts[OF assms(1)]
  from inv(4)[OF assms(2)] inv(4)[OF assms(3)] assms(4) show ?thesis by simp
qed

lemma clean_store_saved:
  "save_preset stroke_lib 1 0 True empty_store clean_config = (Inr (clean_preset 1), clean_store)"
  by (simp add: save_preset_def create_and_store_def empty_store_def clean_config_def dict_get_def
        Preset_init_def save_to_file_def clean_preset_def clean_store_def)

text \<open>
  Claim C4 says that the name index and the id map stay consistent after every store
  operation, failing ones included. \<open>save_preset\<close> keeps the invariant, also when
  writing the file fails (\<open>save_preset_consistent\<close>, \<open>save_preset_failure_unchanged\<close>),
  and so does \<open>delete_preset\<close> (\<open>delete_preset_consistent\<close>).
  \<open>update_preset\<close> does not: it rewrites the index before \<open>Preset.update\<close> validates
  the patch. On the store that holds the one preset "Clean", the patch
  \<open>{"name": ""}\<close> is rejected, yet afterwards the index maps the empty name to the
  preset, which is still called "Clean" and is no longer indexed; a second preset
  named "Clean" can then be saved, and two live presets share the name.
\<close>

theorem C4_index_broken_by_rejected_update:
  "store_consistent clean_store
   \<and> update_preset stroke_lib 5 True clean_store 1 [(''name'', JStr [])]
       = (Inl (InvalidPresetData PresetNameLength), clean_store\<lparr>preset_names := [([], 1)]\<rparr>)
   \<and> \<not> store_consistent (clean_store\<lparr>preset_names := [([], 1)]\<rparr>)
   \<and> (case save_preset stroke_lib 2 6 True (clean_store\<lparr>preset_names := [([], 1)]\<rparr>) clean_config of
         (Inl err, st) \<Rightarrow> False
       | (Inr p, st) \<Rightarrow> live_names st = [''Clean'', ''Clean''])"
  by (simp add: store_consistent_def clean_store_def clean_preset_def update_preset_def reindex_def
        dict_get_def Preset_update_def save_preset_def create_and_store_def clean_config_def
        Preset_init_def save_to_file_def live_names_def)

section \<open>Copying a preset (C5)\<close>

lemma Preset_copy_shallow:
  assumes "Preset_copy st new_id now self new_name = Inr (st', cp)"
  shows "preset_id cp = new_id"
    and "name cp = (case new_name of None \<Rightarrow> name self @ '' (Copy)''
                    | Some n \<Rightarrow> if n \<noteq> [] then n else name self @ '' (Copy)'')"
    and "effects_chain_config cp = next_addr st"
    and "cells st' (effects_chain_config cp) = cells st (effects_chain_config self)"
    and "a \<noteq> next_addr st \<Longrightarrow> cells st' a = cells st a"
  using assms
  by (auto simp: Preset_copy_def container_copy_def Preset_init_def Let_def
           split: if_splits sum.splits option.splits)

lemmas copy_defs = Preset_copy_def container_copy_def Preset_init_def lead_store_def
  lead_original_def tag_ok_def tag_char_def original_config_def set_first_gain_def
  append_to_effects_def getitem_def getindex_def setitem_def py_append_def

text \<open>
  Claim C5 says that \<open>copy\<close> returns a preset with a new identity, named \<open>new_name\<close>
  or the original name followed by " (Copy)", whose configuration is a deep copy. The
  identity and the name are as claimed (\<open>Preset_copy_shallow\<close>), but the configuration
  is a new dictionary holding the \<^emph>\<open>same\<close> items: the effects list and everything
  below it are shared. For the preset "My Lead": right after the copy both
  configurations read the same; setting \<open>gain_db\<close> of the first effect through the
  copy's configuration, or appending to the copy's effects list, changes what the
  original's configuration reads; only an assignment to a top-level key of the copy
  leaves the original alone.
\<close>

theorem C5_copy_shares_nested_containers:
  "(case Preset_copy lead_store 9 7 lead_original None of
      Inl err \<Rightarrow> False
    | Inr (st, cp) \<Rightarrow>
        preset_id cp = 9 \<and> name cp = ''My Lead (Copy)''
        \<and> effects_chain_config cp = 4
        \<and> original_config st =
             Some (JDict [(''name'', JStr ''Lead''),
                          (''effects'', JList [JDict [(''type'', JStr ''BOOST''),
                                                      (''parameters'', JDict [(''gain_db'', JFloat 6)]),
                                                      (''bypassed'', JBool False)]])])
        \<and> snapshot 4 st (VRef (effects_chain_config cp)) = original_config st
        \<and> (case set_first_gain st (effects_chain_config cp) of
              Inl err \<Rightarrow> False
            | Inr st' \<Rightarrow>
                original_config st' =
                  Some (JDict [(''name'', JStr ''Lead''),
                               (''effects'', JList [JDict [(''type'', JStr ''BOOST''),
                                                           (''parameters'', JDict [(''gain_db'', JFloat 12)]),
                                                           (''bypassed'', JBool False)]])]))
        \<and> (case append_to_effects st (effects_chain_config cp) of
              Inl err \<Rightarrow> False
            | Inr st' \<Rightarrow>
                original_config st' =
                  Some (JDict [(''name'', JStr ''Lead''),
                               (''effects'', JList [JDict [(''type'', JStr ''BOOST''),
                                                           (''parameters'', JDict [(''gain_db'', JFloat 6)]),
                                                           (''bypassed'', JBool False)],
                                                    JNull])]))
        \<and> (case setitem st (VRef (effects_chain_config cp)) ''name'' (VStr ''Other'') of
              Inl err \<Rightarrow> False
            | Inr st' \<Rightarrow> original_config st' = original_config st))"
  by (simp add: copy_defs eval_nat_numeral)

end
